theory Spec2Isabelle
  imports Main "HOL-Library.Sublist"
begin

section \<open>Review-status badges on the pull-request list\<close>

text \<open>
  A shallow embedding of \<^verbatim>\<open>source/features/pr-review-status.tsx\<close>. The
  classification functions are pure and are translated one to one; the annotation routine
  \<^verbatim>\<open>addReviewStatus\<close> is translated with the page and the log of network
  requests as explicit state.
\<close>

subsection \<open>JavaScript strings\<close>

text \<open>
  A string is a list of characters. \<^verbatim>\<open>undefined\<close> is \<open>None\<close>. In a
  boolean position JavaScript reads \<^verbatim>\<open>undefined\<close> and the empty string as
  false and every other string as true.
\<close>

definition truthy :: "string option \<Rightarrow> bool" where
  "truthy v = (case v of None \<Rightarrow> False | Some s \<Rightarrow> s \<noteq> [])"

text \<open>
  \<^verbatim>\<open>toLowerCase\<close>: the letters A to Z are mapped to a to z and every other
  character is kept. (Beyond ASCII, the Unicode mapping produces a \<open>w\<close> or a
  \<open>p\<close> from no character, and an \<open>i\<close> only together with a combining dot
  that follows it, so the search for \<open>wip\<close>, the only use of the function, gives
  the same answer.)
\<close>

definition upper_letters :: string where
  "upper_letters = ''ABCDEFGHIJKLMNOPQRSTUVWXYZ''"

definition lower_letters :: string where
  "lower_letters = ''abcdefghijklmnopqrstuvwxyz''"

definition lower_char :: "char \<Rightarrow> char" where
  "lower_char c = (case map_of (zip upper_letters lower_letters) c of None \<Rightarrow> c | Some d \<Rightarrow> d)"

definition toLowerCase :: "string \<Rightarrow> string" where
  "toLowerCase s = map lower_char s"

text \<open>\<^verbatim>\<open>s.includes(sub)\<close>: \<open>sub\<close> occurs in \<open>s\<close> as a contiguous run.\<close>

fun includes_str :: "string \<Rightarrow> string \<Rightarrow> bool" where
  "includes_str [] sub = (sub = [])"
| "includes_str (c # cs) sub = (prefix sub (c # cs) \<or> includes_str cs sub)"

text \<open>The decimal rendering of a non-negative integer inside a template literal.\<close>

definition digit_char :: "nat \<Rightarrow> char" where
  "digit_char d = ''0123456789'' ! d"

fun decimal :: "nat \<Rightarrow> string" where
  "decimal n = (if n < 10 then [digit_char n] else decimal (n div 10) @ [digit_char (n mod 10)])"

declare decimal.simps [simp del]

subsection \<open>The response data of one pull request\<close>

datatype ReviewState = APPROVED | CHANGES_REQUESTED | COMMENTED | DISMISSED | PENDING

record Actor =
  login :: string

record Commit =
  oid :: string

record 'a Connection =
  nodes :: "'a list"

text \<open>An element of \<^verbatim>\<open>reviews.nodes\<close>.\<close>

record ApprovalNode =
  state :: string
  author :: "Actor option"

text \<open>An element of \<^verbatim>\<open>reviewThreads.nodes\<close>.\<close>

record ThreadNode =
  isResolved :: bool

text \<open>An element of \<^verbatim>\<open>latestReviews.nodes\<close>.\<close>

record LatestNode =
  state :: string
  commit :: "Commit option"

record ViewerReview =
  state :: "ReviewState option"
  commit :: "Commit option"

record PrData =
  isDraft :: bool
  title :: string
  author :: "Actor option"
  reviews :: "ApprovalNode Connection option"
  reviewThreads :: "ThreadNode Connection option"
  latestReviews :: "LatestNode Connection option"
  viewerLatestReview :: "ViewerReview option"
  headRefOid :: string

subsection \<open>The elements the feature creates\<close>

datatype Icon = CheckIcon | XIcon | CommentIcon | EyeIcon | FileDiffIcon | Img string

record ReviewIconConfig =
  icon :: Icon
  label :: string
  className :: string

text \<open>
  A \<^verbatim>\<open>span\<close> with its class attribute, its \<^verbatim>\<open>aria-label\<close>, the icon
  that is its first child and, when present, the \<^verbatim>\<open>aria-label\<close> of the inner
  \<^verbatim>\<open>rgh-review-status-indicator\<close> span.
\<close>

record Span =
  className :: string
  ariaLabel :: string
  icon :: Icon
  indicator :: "string option"

subsection \<open>The classification functions\<close>

fun getReviewIconConfig :: "ReviewState option \<Rightarrow> bool \<Rightarrow> ReviewIconConfig option" where
  "getReviewIconConfig (Some APPROVED) hasNewCommits = Some
     \<lparr>ReviewIconConfig.icon = CheckIcon,
      label = (if hasNewCommits then ''You approved this PR (new commits since review)''
               else ''You approved this PR''),
      ReviewIconConfig.className = ''rgh-review-status-approved''\<rparr>"
| "getReviewIconConfig (Some CHANGES_REQUESTED) hasNewCommits = Some
     \<lparr>ReviewIconConfig.icon = XIcon,
      label = (if hasNewCommits then ''You requested changes on this PR (new commits since review)''
               else ''You requested changes on this PR''),
      ReviewIconConfig.className = ''rgh-review-status-changes''\<rparr>"
| "getReviewIconConfig (Some COMMENTED) hasNewCommits = Some
     \<lparr>ReviewIconConfig.icon = CommentIcon,
      label = (if hasNewCommits then ''You commented on this PR (new commits since review)''
               else ''You commented on this PR''),
      ReviewIconConfig.className = ''rgh-review-status-commented''\<rparr>"
| "getReviewIconConfig _ hasNewCommits = None"

text \<open>
  \<^verbatim>\<open>getApprovalCount\<close>: the loop adds the login of every node whose state is
  \<^verbatim>\<open>'APPROVED'\<close> and whose \<^verbatim>\<open>author?.login\<close> is truthy to a
  \<^verbatim>\<open>Set\<close>, and the size of the set is returned.
\<close>

definition addApprover :: "ApprovalNode \<Rightarrow> string set \<Rightarrow> string set" where
  "addApprover review distinctApprovers =
     (if ApprovalNode.state review = ''APPROVED''
         \<and> truthy (map_option login (ApprovalNode.author review))
      then (case ApprovalNode.author review of
              None \<Rightarrow> distinctApprovers
            | Some a \<Rightarrow> insert (login a) distinctApprovers)
      else distinctApprovers)"

definition getApprovalCount :: "ApprovalNode Connection option \<Rightarrow> nat" where
  "getApprovalCount reviewsArg =
     (case reviewsArg of
        None \<Rightarrow> 0
      | Some c \<Rightarrow> card (fold addApprover (nodes c) {}))"

definition isReadyToMerge :: "bool \<Rightarrow> bool \<Rightarrow> ApprovalNode Connection option \<Rightarrow> bool" where
  "isReadyToMerge myPr draft reviewsArg =
     (myPr \<and> \<not> draft \<and> getApprovalCount reviewsArg \<ge> 2)"

definition needsReview :: "ReviewState option \<Rightarrow> bool \<Rightarrow> string \<Rightarrow> bool" where
  "needsReview reviewState draft titleArg =
     (let titleContainsWip = includes_str (toLowerCase titleArg) ''wip''
      in reviewState = None \<and> \<not> draft \<and> \<not> titleContainsWip)"

definition hasNewCommitsAfterReview :: "string option \<Rightarrow> string option \<Rightarrow> bool" where
  "hasNewCommitsAfterReview reviewCommitOid headOid =
     (truthy reviewCommitOid \<and> truthy headOid \<and> reviewCommitOid \<noteq> headOid)"

record LatestFeedback =
  state :: string
  commitOid :: "string option"

fun firstCommentOrChangesRequested :: "LatestNode list \<Rightarrow> LatestFeedback option" where
  "firstCommentOrChangesRequested [] = None"
| "firstCommentOrChangesRequested (review # rest) =
     (if LatestNode.state review = ''COMMENTED'' \<or> LatestNode.state review = ''CHANGES_REQUESTED''
      then Some \<lparr>LatestFeedback.state = LatestNode.state review,
                 commitOid = map_option oid (LatestNode.commit review)\<rparr>
      else firstCommentOrChangesRequested rest)"

definition getLatestCommentOrChangesRequested ::
    "LatestNode Connection option \<Rightarrow> LatestFeedback option" where
  "getLatestCommentOrChangesRequested latestArg =
     (case latestArg of
        None \<Rightarrow> None
      | Some c \<Rightarrow> firstCommentOrChangesRequested (nodes c))"

text \<open>
  The local constants of \<^verbatim>\<open>createReviewBadge\<close>:
  \<^verbatim>\<open>reviewState = prData.viewerLatestReview?.state\<close>,
  \<^verbatim>\<open>isMyPr = author?.login === loggedInUser\<close> (two \<^verbatim>\<open>undefined\<close> are
  equal) and \<^verbatim>\<open>hasOpenConversations\<close>.
\<close>

definition reviewStateOf :: "PrData \<Rightarrow> ReviewState option" where
  "reviewStateOf prData = Option.bind (viewerLatestReview prData) ViewerReview.state"

definition isMyPr :: "PrData \<Rightarrow> string option \<Rightarrow> bool" where
  "isMyPr prData loggedInUser = (map_option login (PrData.author prData) = loggedInUser)"

definition hasOpenConversations :: "PrData \<Rightarrow> bool" where
  "hasOpenConversations prData =
     (case reviewThreads prData of
        None \<Rightarrow> False
      | Some c \<Rightarrow> list_ex (\<lambda>thread. \<not> isResolved thread) (nodes c))"

text \<open>
  \<^verbatim>\<open>createReviewBadge\<close>. The first argument stands for
  \<^verbatim>\<open>chrome.runtime.getURL\<close>. Every \<^verbatim>\<open>return\<close> of the source is one
  branch, in the source's order.
\<close>

definition createReviewBadge :: "(string \<Rightarrow> string) \<Rightarrow> PrData \<Rightarrow> string option \<Rightarrow> Span option" where
  "createReviewBadge getURL prData loggedInUser =
     (let reviewState = reviewStateOf prData;
          myPr = isMyPr prData loggedInUser
      in
      if isReadyToMerge myPr (isDraft prData) (reviews prData) then
        (let approvalCount = getApprovalCount (reviews prData);
             openConversations = hasOpenConversations prData
         in Some
           \<lparr>Span.className = ''rgh-pr-review-status tooltipped tooltipped-n rgh-review-status-to-merge'',
            ariaLabel = ''Ready to merge ('' @ decimal approvalCount @ '' approvals)''
                        @ (if openConversations then '' - Open conversations'' else ''''),
            Span.icon = Img (getURL ''assets/merge-parrot.gif''),
            indicator = (if openConversations then Some ''Open conversations'' else None)\<rparr>)
      else
        (case (if myPr \<and> \<not> isDraft prData then
                 (case getLatestCommentOrChangesRequested (latestReviews prData) of
                    None \<Rightarrow> None
                  | Some latestCommentOrChanges \<Rightarrow>
                      (let hasNewCommits =
                             hasNewCommitsAfterReview (commitOid latestCommentOrChanges)
                               (Some (headRefOid prData))
                       in if \<not> hasNewCommits then
                            (let isChangesRequested =
                                   (LatestFeedback.state latestCommentOrChanges = ''CHANGES_REQUESTED'')
                             in Some
                               \<lparr>Span.className = ''rgh-pr-review-status tooltipped tooltipped-n rgh-review-status-feedback'',
                                ariaLabel = (if isChangesRequested then ''Changes requested on your PR''
                                             else ''Comment on your PR''),
                                Span.icon = FileDiffIcon,
                                indicator = None\<rparr>)
                          else None))
               else None) of
           Some badge \<Rightarrow> Some badge
         | None \<Rightarrow>
             if myPr then None
             else if needsReview reviewState (isDraft prData) (title prData) then Some
               \<lparr>Span.className = ''rgh-pr-review-status tooltipped tooltipped-n rgh-review-status-needed'',
                ariaLabel = ''Review needed'',
                Span.icon = EyeIcon,
                indicator = None\<rparr>
             else if reviewState = None \<or> reviewState = Some DISMISSED \<or> reviewState = Some PENDING
               then None
             else
               (let reviewCommitOid =
                      map_option oid (Option.bind (viewerLatestReview prData) ViewerReview.commit);
                    hasNewCommits = hasNewCommitsAfterReview reviewCommitOid (Some (headRefOid prData))
                in case getReviewIconConfig reviewState hasNewCommits of
                     None \<Rightarrow> None
                   | Some iconConfig \<Rightarrow>
                       (let statusClassName =
                              (if hasNewCommits then ''rgh-review-status-updated''
                               else ''rgh-review-status-reviewed'')
                        in Some
                          \<lparr>Span.className = ''rgh-pr-review-status tooltipped tooltipped-n '' @ statusClassName,
                           ariaLabel = label iconConfig,
                           Span.icon = ReviewIconConfig.icon iconConfig,
                           indicator = (if hasNewCommits then Some ''New commits since your review''
                                        else None)\<rparr>))))"

subsection \<open>The page\<close>

text \<open>
  \<^verbatim>\<open>pathname.split('/')\<close> and the reading of an array element that may be missing
  (a destructured element beyond the end of the array is \<^verbatim>\<open>undefined\<close>).
\<close>

fun split_on :: "char \<Rightarrow> string \<Rightarrow> string list" where
  "split_on sep [] = [[]]"
| "split_on sep (c # cs) =
     (if c = sep then [] # split_on sep cs
      else (case split_on sep cs of [] \<Rightarrow> [[c]] | p # ps \<Rightarrow> (c # p) # ps))"

definition element_at :: "'a list \<Rightarrow> nat \<Rightarrow> 'a option" where
  "element_at xs i = (if i < length xs then Some (xs ! i) else None)"

text \<open>\<^verbatim>\<open>classList\<close>: the tokens of a class attribute, separated by ASCII whitespace.\<close>

definition isSpace :: "char \<Rightarrow> bool" where
  "isSpace c = (c = CHR '' '' \<or> c = CHR 0x09 \<or> c = CHR 0x0A \<or> c = CHR 0x0C \<or> c = CHR 0x0D)"

fun tokensFrom :: "string \<Rightarrow> string \<Rightarrow> string list" where
  "tokensFrom cur [] = (if cur = [] then [] else [cur])"
| "tokensFrom cur (c # cs) =
     (if isSpace c then (if cur = [] then tokensFrom [] cs else cur # tokensFrom [] cs)
      else tokensFrom (cur @ [c]) cs)"

definition classList :: "string \<Rightarrow> string list" where
  "classList cls = tokensFrom [] cls"

text \<open>
  An \<^verbatim>\<open>HTMLAnchorElement\<close> handed to the routine: \<open>ref\<close> is its identity
  as an object, \<open>pathname\<close> its property of that name.
\<close>

record Link =
  ref :: nat
  pathname :: string

text \<open>
  A pull-request row (an element of class \<^verbatim>\<open>js-issue-row\<close>) is modelled by the
  children of the element that holds its pull-request link, in document order: the
  links the feature observes are \<open>Anchor\<close> nodes, every other element is an
  \<open>Element\<close> with its class attribute. The page is the list of its rows; a link that
  lies in no row is outside every \<^verbatim>\<open>js-issue-row\<close>.
\<close>

datatype Node = Anchor Link | Element Span

type_synonym Row = "Node list"

type_synonym Page = "Row list"

text \<open>An element matches the selector \<^verbatim>\<open>.rgh-pr-review-status\<close>.\<close>

fun isStatusBadge :: "Node \<Rightarrow> bool" where
  "isStatusBadge (Anchor l) = False"
| "isStatusBadge (Element e) = (''rgh-pr-review-status'' \<in> set (classList (Span.className e)))"

text \<open>\<^verbatim>\<open>link.closest('.js-issue-row')\<close> and \<^verbatim>\<open>row.querySelector('.rgh-pr-review-status')\<close>.\<close>

definition closest :: "Page \<Rightarrow> Link \<Rightarrow> Row option" where
  "closest page l = find (\<lambda>row. Anchor l \<in> set row) page"

definition querySelector :: "Row \<Rightarrow> Node option" where
  "querySelector row = find isStatusBadge row"

text \<open>\<^verbatim>\<open>link.nextElementSibling\<close>.\<close>

fun nextInRow :: "Link \<Rightarrow> Row \<Rightarrow> Node option" where
  "nextInRow l [] = None"
| "nextInRow l (n # ns) =
     (if n = Anchor l then (case ns of [] \<Rightarrow> None | m # _ \<Rightarrow> Some m) else nextInRow l ns)"

definition nextElementSibling :: "Page \<Rightarrow> Link \<Rightarrow> Node option" where
  "nextElementSibling page l =
     (case closest page l of None \<Rightarrow> None | Some row \<Rightarrow> nextInRow l row)"

text \<open>\<^verbatim>\<open>link.after(badge)\<close>: the badge becomes the next sibling of the link.\<close>

fun insertAfter :: "Link \<Rightarrow> Span \<Rightarrow> Row \<Rightarrow> Row" where
  "insertAfter l badge [] = []"
| "insertAfter l badge (n # ns) =
     (if n = Anchor l then n # Element badge # ns else n # insertAfter l badge ns)"

fun after :: "Link \<Rightarrow> Span \<Rightarrow> Page \<Rightarrow> Page" where
  "after l badge [] = []"
| "after l badge (row # rows) =
     (if Anchor l \<in> set row then insertAfter l badge row # rows
      else row # after l badge rows)"

subsection \<open>The annotation routine\<close>

text \<open>
  What the routine takes from its surroundings: \<^verbatim>\<open>api.escapeKey\<close>,
  \<^verbatim>\<open>api.v4\<close> (the answer to a query is an error, which rejects the promise, or
  an object that maps keys to repositories), \<^verbatim>\<open>getLoggedInUser\<close>,
  \<^verbatim>\<open>chrome.runtime.getURL\<close>, and the text that a template literal produces for
  \<^verbatim>\<open>Number(prNumber)\<close> (JavaScript numbers are not modelled).
\<close>

datatype ApiError = ApiError string

record Repository =
  pullRequest :: "PrData option"

record Env =
  escapeKey :: "string option \<Rightarrow> string option \<Rightarrow> string option \<Rightarrow> string"
  v4 :: "string \<Rightarrow> ApiError + (string \<rightharpoonup> Repository)"
  getLoggedInUser :: "string option"
  chromeGetURL :: "string \<Rightarrow> string"
  numberText :: "string option \<Rightarrow> string"

record PrConfig =
  key :: string
  link :: Link
  owner :: "string option"
  name :: "string option"
  number :: string

text \<open>The state the routine acts on: the page and the queries sent so far.\<close>

record World =
  page :: Page
  requests :: "string list"

datatype Outcome = Resolved | Rejected ApiError

text \<open>The callback of \<^verbatim>\<open>links.filter\<close> and the callback of \<^verbatim>\<open>.map\<close>.\<close>

definition notYetProcessed :: "Page \<Rightarrow> Link \<Rightarrow> bool" where
  "notYetProcessed pg l =
     (case closest pg l of None \<Rightarrow> False | Some row \<Rightarrow> querySelector row = None)"

definition toPrConfig :: "Env \<Rightarrow> Link \<Rightarrow> PrConfig" where
  "toPrConfig env l =
     (let parts = split_on CHR ''/'' (pathname l);
          ownerPart = element_at parts 1;
          namePart = element_at parts 2;
          prNumber = element_at parts 4;
          k = escapeKey env ownerPart namePart prNumber
      in \<lparr>key = k, link = l, owner = ownerPart, name = namePart, number = numberText env prNumber\<rparr>)"

definition prConfigsOf :: "Env \<Rightarrow> Page \<Rightarrow> Link list \<Rightarrow> PrConfig list" where
  "prConfigsOf env pg links = map (toPrConfig env) (filter (notYetProcessed pg) links)"

text \<open>
  The batch query. A missing path segment is printed as \<^verbatim>\<open>undefined\<close>. The
  line breaks and tabs inside one entry of the template are written as single spaces.
\<close>

definition templateText :: "string option \<Rightarrow> string" where
  "templateText v = (case v of None \<Rightarrow> ''undefined'' | Some s \<Rightarrow> s)"

definition queryEntry :: "PrConfig \<Rightarrow> string" where
  \<open>queryEntry pr =
     key pr @ '': repository(owner: "'' @ templateText (owner pr) @ ''", name: "''
       @ templateText (name pr) @ ''") { pullRequest(number: '' @ number pr
       @ '') { headRefOid isDraft title author { login } ''
       @ ''reviews(states: APPROVED, first: 10) { nodes { state author { login } } } ''
       @ ''reviewThreads(first: 10) { nodes { isResolved } } ''
       @ ''latestReviews(first: 10) { nodes { state commit { oid } } } ''
       @ ''viewerLatestReview { state commit { oid } } } }''\<close>

fun joinLines :: "string list \<Rightarrow> string" where
  "joinLines [] = []"
| "joinLines [s] = s"
| "joinLines (s # t # ss) = s @ [CHR 0x0A] @ joinLines (t # ss)"

definition batchQuery :: "PrConfig list \<Rightarrow> string" where
  "batchQuery prConfigs = joinLines (map queryEntry prConfigs)"

text \<open>
  One round of the loop over \<^verbatim>\<open>prConfigs\<close>: each \<^verbatim>\<open>continue\<close> leaves
  the page as it is.
\<close>

definition annotateRow ::
    "(string \<Rightarrow> string) \<Rightarrow> (string \<rightharpoonup> Repository) \<Rightarrow> string option \<Rightarrow> PrConfig \<Rightarrow> Page \<Rightarrow> Page" where
  "annotateRow url data loggedInUser pr pg =
     (case Option.bind (data (key pr)) pullRequest of
        None \<Rightarrow> pg
      | Some prData \<Rightarrow>
          if (case nextElementSibling pg (link pr) of None \<Rightarrow> False | Some n \<Rightarrow> isStatusBadge n)
          then pg
          else (case createReviewBadge url prData loggedInUser of
                  None \<Rightarrow> pg
                | Some badge \<Rightarrow> after (link pr) badge pg))"

fun annotateRows ::
    "(string \<Rightarrow> string) \<Rightarrow> (string \<rightharpoonup> Repository) \<Rightarrow> string option \<Rightarrow> PrConfig list \<Rightarrow> Page \<Rightarrow> Page" where
  "annotateRows url data loggedInUser [] pg = pg"
| "annotateRows url data loggedInUser (pr # prs) pg =
     annotateRows url data loggedInUser prs (annotateRow url data loggedInUser pr pg)"

text \<open>
  \<^verbatim>\<open>addReviewStatus\<close>: the outcome of the promise and the state it leaves behind.
\<close>

definition addReviewStatus :: "Env \<Rightarrow> Link list \<Rightarrow> World \<Rightarrow> Outcome \<times> World" where
  "addReviewStatus env links w =
     (let prConfigs = prConfigsOf env (page w) links
      in if prConfigs = [] then (Resolved, w)
         else
           (let query = batchQuery prConfigs;
                sent = w\<lparr>requests := requests w @ [query]\<rparr>
            in case v4 env query of
                 Inl err \<Rightarrow> (Rejected err, sent)
               | Inr data \<Rightarrow>
                   (Resolved,
                    sent\<lparr>page := annotateRows (chromeGetURL env) data (getLoggedInUser env)
                                   prConfigs (page sent)\<rparr>)))"


section \<open>Properties of the classifier\<close>

subsection \<open>Strings\<close>

text \<open>\<open>includes_str\<close> is the contiguous-sublist relation of the list library.\<close>

lemma includes_str_sublist: "includes_str s sub = sublist sub s"
  by (induction s) (simp_all add: sublist_Cons_right)

lemma lower_w: "lower_char c = CHR ''w'' \<longleftrightarrow> c = CHR ''w'' \<or> c = CHR ''W''"
  by (simp add: lower_char_def upper_letters_def lower_letters_def)
lemma lower_i: "lower_char c = CHR ''i'' \<longleftrightarrow> c = CHR ''i'' \<or> c = CHR ''I''"
  by (simp add: lower_char_def upper_letters_def lower_letters_def)
lemma lower_p: "lower_char c = CHR ''p'' \<longleftrightarrow> c = CHR ''p'' \<or> c = CHR ''P''"
  by (simp add: lower_char_def upper_letters_def lower_letters_def)

text \<open>
  A title contains \<open>wip\<close> in any case when three consecutive characters of it are a
  \<open>w\<close>, an \<open>i\<close> and a \<open>p\<close>, each in either case. This is what the test
  \<^verbatim>\<open>title.toLowerCase().includes('wip')\<close> of \<open>needsReview\<close> decides.
\<close>

definition containsWipAnyCase :: "string \<Rightarrow> bool" where
  "containsWipAnyCase t = (\<exists>pre a b c post. t = pre @ [a, b, c] @ post
      \<and> (a = CHR ''w'' \<or> a = CHR ''W'') \<and> (b = CHR ''i'' \<or> b = CHR ''I'') \<and> (c = CHR ''p'' \<or> c = CHR ''P''))"

lemma titleContainsWip_iff: "includes_str (toLowerCase t) ''wip'' = containsWipAnyCase t"
proof
  assume "includes_str (toLowerCase t) ''wip''"
  then obtain ps ss where e: "map lower_char t = ps @ ''wip'' @ ss"
    by (auto simp: includes_str_sublist sublist_def toLowerCase_def)
  then obtain pre rest where t: "t = pre @ rest" and "map lower_char rest = ''wip'' @ ss"
    by (metis map_eq_append_conv)
  then obtain mid post where r: "rest = mid @ post" and m: "map lower_char mid = ''wip''"
    by (metis map_eq_append_conv)
  from m obtain a b c where abc: "mid = [a, b, c]" "lower_char a = CHR ''w''" "lower_char b = CHR ''i''" "lower_char c = CHR ''p''"
    by (auto simp: map_eq_Cons_conv)
  have "t = pre @ [a, b, c] @ post"
    using t r abc by simp
  moreover have "a = CHR ''w'' \<or> a = CHR ''W''" "b = CHR ''i'' \<or> b = CHR ''I''"
      "c = CHR ''p'' \<or> c = CHR ''P''"
    using abc by (simp_all only: lower_w lower_i lower_p)
  ultimately show "containsWipAnyCase t"
    unfolding containsWipAnyCase_def by blast
next
  assume "containsWipAnyCase t"
  then obtain pre a b c post where t: "t = pre @ [a, b, c] @ post"
     and "lower_char a = CHR ''w''" "lower_char b = CHR ''i''" "lower_char c = CHR ''p''"
    unfolding containsWipAnyCase_def lower_w lower_i lower_p by blast
  then have "map lower_char t = map lower_char pre @ ''wip'' @ map lower_char post" by simp
  then show "includes_str (toLowerCase t) ''wip''"
    unfolding includes_str_sublist sublist_def toLowerCase_def by blast
qed

subsection \<open>The approval count\<close>

text \<open>
  The logins that approve: the truthy (present and non-empty) author logins of the nodes
  whose state is \<^verbatim>\<open>APPROVED\<close>; and the logins of all nodes that have an author.
\<close>

definition approvingLogins :: "ApprovalNode list \<Rightarrow> string set" where
  "approvingLogins rs = {l. l \<noteq> [] \<and> (\<exists>r \<in> set rs. ApprovalNode.state r = ''APPROVED''
       \<and> map_option login (ApprovalNode.author r) = Some l)}"

definition allLogins :: "ApprovalNode list \<Rightarrow> string set" where
  "allLogins rs = {l. \<exists>r \<in> set rs. map_option login (ApprovalNode.author r) = Some l}"

lemma fold_addApprover: "fold addApprover rs S = S \<union> approvingLogins rs"
proof (induction rs arbitrary: S)
  case Nil show ?case by (simp add: approvingLogins_def)
next
  case (Cons r rs)
  have "addApprover r S \<union> approvingLogins rs = S \<union> approvingLogins (r # rs)"
    by (auto simp: addApprover_def approvingLogins_def truthy_def split: option.splits)
  with Cons show ?case by simp
qed

lemma finite_allLogins: "finite (allLogins rs)"
proof -
  have "allLogins rs \<subseteq> (\<lambda>r. login (the (ApprovalNode.author r))) ` set rs"
    by (force simp: allLogins_def)
  then show ?thesis by (rule finite_subset) simp
qed

lemma approving_subset: "approvingLogins rs \<subseteq> allLogins rs"
  by (auto simp: approvingLogins_def allLogins_def)

lemma card_allLogins_le: "card (allLogins rs) \<le> length rs"
proof -
  have "allLogins rs \<subseteq> (\<lambda>r. login (the (ApprovalNode.author r))) ` set rs"
    by (force simp: allLogins_def)
  then have "card (allLogins rs) \<le> card ((\<lambda>r. login (the (ApprovalNode.author r))) ` set rs)"
    by (intro card_mono) simp_all
  also have "\<dots> \<le> card (set rs)" by (rule card_image_le) simp
  also have "\<dots> \<le> length rs" by (rule card_length)
  finally show ?thesis .
qed

lemma approvingLogins_middle:
  "approvingLogins (xs @ r # ys) = approvingLogins [r] \<union> approvingLogins (xs @ ys)"
  by (auto simp: approvingLogins_def)

lemma approvingLogins_skip:
  assumes "\<not> truthy (map_option login (ApprovalNode.author r))"
  shows "approvingLogins (xs @ r # ys) = approvingLogins (xs @ ys)"
proof -
  from assms have "approvingLogins [r] = {}"
    by (auto simp: approvingLogins_def truthy_def)
  then show ?thesis by (simp add: approvingLogins_middle)
qed

lemma approvingLogins_repeat:
  assumes "map_option login (ApprovalNode.author r) = Some l" and "l \<in> approvingLogins (xs @ ys)"
  shows "approvingLogins (xs @ r # ys) = approvingLogins (xs @ ys)"
proof -
  from assms(1) have "approvingLogins [r] \<subseteq> {l}"
    by (auto simp: approvingLogins_def)
  with assms(2) show ?thesis by (auto simp: approvingLogins_middle)
qed

lemma getApprovalCount_card: "getApprovalCount (Some c) = card (approvingLogins (nodes c))"
  by (simp add: getApprovalCount_def fold_addApprover)

definition alice_approved :: ApprovalNode where
  "alice_approved = \<lparr>ApprovalNode.state = ''APPROVED'', ApprovalNode.author = Some \<lparr>login = ''alice''\<rparr>\<rparr>"
definition bob_approved :: ApprovalNode where
  "bob_approved = \<lparr>ApprovalNode.state = ''APPROVED'', ApprovalNode.author = Some \<lparr>login = ''bob''\<rparr>\<rparr>"
definition ghost_approved :: ApprovalNode where
  "ghost_approved = \<lparr>ApprovalNode.state = ''APPROVED'', ApprovalNode.author = None\<rparr>"

text \<open>
  Claim C10. The count that the ready-to-merge rule uses is the number of distinct
  approving logins (the cardinality of a set of logins): a further \<^verbatim>\<open>APPROVED\<close>
  review by a login that approves already does not change it, a node without a truthy
  author login does not change it, and it is at most the number of distinct logins among
  the fetched review nodes (which is at most the number of nodes).
\<close>

theorem approval_count:
  "getApprovalCount None = 0
   \<and> getApprovalCount (Some c) = card (approvingLogins (nodes c))
   \<and> (map_option login (ApprovalNode.author r) = Some l \<and> l \<in> approvingLogins (xs @ ys)
       \<longrightarrow> getApprovalCount (Some \<lparr>nodes = xs @ r # ys\<rparr>) = getApprovalCount (Some \<lparr>nodes = xs @ ys\<rparr>))
   \<and> (\<not> truthy (map_option login (ApprovalNode.author r))
       \<longrightarrow> getApprovalCount (Some \<lparr>nodes = xs @ r # ys\<rparr>) = getApprovalCount (Some \<lparr>nodes = xs @ ys\<rparr>))
   \<and> getApprovalCount (Some c) \<le> card (allLogins (nodes c))
   \<and> card (allLogins (nodes c)) \<le> length (nodes c)"
proof (intro conjI impI)
  show "getApprovalCount None = 0" by (simp add: getApprovalCount_def)
  show "getApprovalCount (Some c) = card (approvingLogins (nodes c))"
    by (rule getApprovalCount_card)
  show "getApprovalCount (Some c) \<le> card (allLogins (nodes c))"
    by (simp add: getApprovalCount_card card_mono approving_subset finite_allLogins)
  show "card (allLogins (nodes c)) \<le> length (nodes c)" by (rule card_allLogins_le)
next
  assume "map_option login (ApprovalNode.author r) = Some l \<and> l \<in> approvingLogins (xs @ ys)"
  then have "approvingLogins (xs @ r # ys) = approvingLogins (xs @ ys)"
    using approvingLogins_repeat [of r l xs ys] by blast
  then show "getApprovalCount (Some \<lparr>nodes = xs @ r # ys\<rparr>) = getApprovalCount (Some \<lparr>nodes = xs @ ys\<rparr>)"
    by (simp add: getApprovalCount_card)
next
  assume "\<not> truthy (map_option login (ApprovalNode.author r))"
  then have "approvingLogins (xs @ r # ys) = approvingLogins (xs @ ys)"
    by (rule approvingLogins_skip)
  then show "getApprovalCount (Some \<lparr>nodes = xs @ r # ys\<rparr>) = getApprovalCount (Some \<lparr>nodes = xs @ ys\<rparr>)"
    by (simp add: getApprovalCount_card)
qed

text \<open>
  The count at two approvers, with a second approval by one of them, and with an approval
  without author.
\<close>

theorem approval_count_witness:
  "map_option login (ApprovalNode.author alice_approved) = Some ''alice''
   \<and> ''alice'' \<in> approvingLogins ([alice_approved] @ [bob_approved])
   \<and> \<not> truthy (map_option login (ApprovalNode.author ghost_approved))
   \<and> getApprovalCount (Some \<lparr>nodes = [alice_approved] @ alice_approved # [bob_approved]\<rparr>) = 2
   \<and> getApprovalCount (Some \<lparr>nodes = [alice_approved] @ ghost_approved # [bob_approved]\<rparr>) = 2
   \<and> card (approvingLogins [alice_approved, bob_approved]) = 2
   \<and> 2 \<le> card (allLogins [alice_approved, bob_approved])"
proof -
  have a: "map_option login (ApprovalNode.author alice_approved) = Some ''alice''"
    by (simp add: alice_approved_def)
  have m: "''alice'' \<in> approvingLogins ([alice_approved] @ [bob_approved])"
    by (simp add: approvingLogins_def alice_approved_def)
  have g: "\<not> truthy (map_option login (ApprovalNode.author ghost_approved))"
    by (simp add: ghost_approved_def truthy_def)
  have c: "getApprovalCount (Some \<lparr>nodes = [alice_approved] @ [bob_approved]\<rparr>) = 2"
    by (simp add: getApprovalCount_def addApprover_def truthy_def alice_approved_def bob_approved_def)
  show ?thesis
    using approval_count [of "\<lparr>nodes = [alice_approved] @ [bob_approved]\<rparr>" alice_approved
        "''alice''" "[alice_approved]" "[bob_approved]"]
      approval_count [of "\<lparr>nodes = [alice_approved] @ [bob_approved]\<rparr>" ghost_approved
        "''alice''" "[alice_approved]" "[bob_approved]"] a m g c
    by simp
qed

subsection \<open>Rule 1: ready to merge\<close>

lemma hasOpenConversations_iff:
  "hasOpenConversations prData \<longleftrightarrow>
     (\<exists>c t. reviewThreads prData = Some c \<and> t \<in> set (nodes c) \<and> \<not> isResolved t)"
  by (auto simp: hasOpenConversations_def list_ex_iff split: option.splits)

text \<open>
  Claim C1. When the pull request is not a draft, the viewer is its author and the
  distinct-approver count is at least 2, \<open>createReviewBadge\<close> returns the
  ready-to-merge badge whatever the other fields are: its label holds the approval count,
  and the label suffix and the indicator for open conversations are present exactly when
  some review thread is unresolved.
\<close>

theorem ready_to_merge:
  assumes "\<not> isDraft prData" and "isMyPr prData viewer"
    and "2 \<le> getApprovalCount (reviews prData)"
  shows "createReviewBadge getURL prData viewer = Some
      \<lparr>Span.className = ''rgh-pr-review-status tooltipped tooltipped-n rgh-review-status-to-merge'',
       ariaLabel = ''Ready to merge ('' @ decimal (getApprovalCount (reviews prData)) @ '' approvals)''
                   @ (if hasOpenConversations prData then '' - Open conversations'' else ''''),
       Span.icon = Img (getURL ''assets/merge-parrot.gif''),
       indicator = (if hasOpenConversations prData then Some ''Open conversations'' else None)\<rparr>
    \<and> (hasOpenConversations prData \<longleftrightarrow>
         (\<exists>c t. reviewThreads prData = Some c \<and> t \<in> set (nodes c) \<and> \<not> isResolved t))"
  using assms
  by (simp add: createReviewBadge_def isReadyToMerge_def Let_def hasOpenConversations_iff)

text \<open>
  The rule at a pull request with two distinct approvers, an unresolved thread and a
  \<^verbatim>\<open>CHANGES_REQUESTED\<close> review on the head commit.
\<close>

definition pr_ready :: PrData where
  "pr_ready = \<lparr>isDraft = False, title = ''Add feature'',
      PrData.author = Some \<lparr>login = ''me''\<rparr>,
      reviews = Some \<lparr>nodes = [alice_approved, alice_approved, ghost_approved, bob_approved]\<rparr>,
      reviewThreads = Some \<lparr>nodes = [\<lparr>isResolved = True\<rparr>, \<lparr>isResolved = False\<rparr>]\<rparr>,
      latestReviews = Some \<lparr>nodes = [\<lparr>LatestNode.state = ''CHANGES_REQUESTED'',
                                          LatestNode.commit = Some \<lparr>oid = ''abc''\<rparr>\<rparr>]\<rparr>,
      viewerLatestReview = None,
      headRefOid = ''abc''\<rparr>"

lemma count_pr_ready: "getApprovalCount (reviews pr_ready) = 2"
  by (simp add: pr_ready_def getApprovalCount_def addApprover_def truthy_def
      alice_approved_def bob_approved_def ghost_approved_def)

theorem ready_to_merge_witness:
  "\<not> isDraft pr_ready \<and> isMyPr pr_ready (Some ''me'')
   \<and> 2 \<le> getApprovalCount (reviews pr_ready)
   \<and> createReviewBadge (\<lambda>p. ''chrome-extension://rgh/'' @ p) pr_ready (Some ''me'') = Some
      \<lparr>Span.className = ''rgh-pr-review-status tooltipped tooltipped-n rgh-review-status-to-merge'',
       ariaLabel = ''Ready to merge (2 approvals) - Open conversations'',
       Span.icon = Img ''chrome-extension://rgh/assets/merge-parrot.gif'',
       indicator = Some ''Open conversations''\<rparr>"
proof -
  have d: "\<not> isDraft pr_ready" by (simp add: pr_ready_def)
  have m: "isMyPr pr_ready (Some ''me'')" by (simp add: pr_ready_def isMyPr_def)
  have c: "2 \<le> getApprovalCount (reviews pr_ready)" by (simp add: count_pr_ready)
  have o: "hasOpenConversations pr_ready" by (simp add: hasOpenConversations_def pr_ready_def)
  show ?thesis
    using ready_to_merge [OF d m c, of "\<lambda>p. ''chrome-extension://rgh/'' @ p"] d m c o
    by (simp add: count_pr_ready decimal.simps digit_char_def)
qed

subsection \<open>Rule 2: feedback pending\<close>

text \<open>
  \<open>getLatestCommentOrChangesRequested\<close> returns the first node of
  \<^verbatim>\<open>latestReviews\<close> whose state is \<^verbatim>\<open>COMMENTED\<close> or
  \<^verbatim>\<open>CHANGES_REQUESTED\<close>; the source takes it for the most recent one.
\<close>

definition isFeedbackState :: "string \<Rightarrow> bool" where
  "isFeedbackState s = (s = ''COMMENTED'' \<or> s = ''CHANGES_REQUESTED'')"

lemma firstCommentOrChangesRequested_append:
  assumes "list_all (\<lambda>r. \<not> isFeedbackState (LatestNode.state r)) newer"
    and "isFeedbackState (LatestNode.state review)"
  shows "firstCommentOrChangesRequested (newer @ review # older) = Some
      \<lparr>LatestFeedback.state = LatestNode.state review,
       commitOid = map_option oid (LatestNode.commit review)\<rparr>"
  using assms by (induction newer) (auto simp: isFeedbackState_def)

lemma firstCommentOrChangesRequested_None:
  "firstCommentOrChangesRequested rs = None \<longleftrightarrow>
     list_all (\<lambda>r. \<not> isFeedbackState (LatestNode.state r)) rs"
  by (induction rs) (auto simp: isFeedbackState_def)

lemma firstCommentOrChangesRequested_Some:
  "firstCommentOrChangesRequested rs = Some l \<Longrightarrow>
     \<exists>r \<in> set rs. isFeedbackState (LatestNode.state r)
        \<and> LatestFeedback.state l = LatestNode.state r
        \<and> commitOid l = map_option oid (LatestNode.commit r)"
  by (induction rs) (auto simp: isFeedbackState_def split: if_splits)

definition feedbackBadge :: "bool \<Rightarrow> Span" where
  "feedbackBadge changesRequested =
     \<lparr>Span.className = ''rgh-pr-review-status tooltipped tooltipped-n rgh-review-status-feedback'',
      ariaLabel = (if changesRequested then ''Changes requested on your PR'' else ''Comment on your PR''),
      Span.icon = FileDiffIcon,
      indicator = None\<rparr>"

lemma own_pr_feedback:
  assumes "isMyPr prData viewer" and "\<not> isDraft prData"
    and "getApprovalCount (reviews prData) < 2"
    and "getLatestCommentOrChangesRequested (latestReviews prData) = Some l"
    and "\<not> hasNewCommitsAfterReview (commitOid l) (Some (headRefOid prData))"
  shows "createReviewBadge getURL prData viewer =
           Some (feedbackBadge (LatestFeedback.state l = ''CHANGES_REQUESTED''))"
  using assms by (simp add: createReviewBadge_def isReadyToMerge_def Let_def feedbackBadge_def)

text \<open>
  Claim C2. When the viewer is the author, the pull request is not a draft, the
  distinct-approver count is below 2, and the commit of the most recent
  \<^verbatim>\<open>COMMENTED\<close> or \<^verbatim>\<open>CHANGES_REQUESTED\<close> review (the first such node
  of \<^verbatim>\<open>latestReviews\<close>) is the head commit, \<open>createReviewBadge\<close> returns the
  feedback badge; its label is "Changes requested on your PR" for a
  \<^verbatim>\<open>CHANGES_REQUESTED\<close> review and "Comment on your PR" for a comment.
\<close>

theorem feedback_pending:
  assumes "isMyPr prData viewer" and "\<not> isDraft prData"
    and "getApprovalCount (reviews prData) < 2"
    and "latestReviews prData = Some c" and "nodes c = newer @ review # older"
    and "list_all (\<lambda>r. \<not> isFeedbackState (LatestNode.state r)) newer"
    and "isFeedbackState (LatestNode.state review)"
    and "map_option oid (LatestNode.commit review) = Some (headRefOid prData)"
  shows "createReviewBadge getURL prData viewer = Some
      \<lparr>Span.className = ''rgh-pr-review-status tooltipped tooltipped-n rgh-review-status-feedback'',
       ariaLabel = (if LatestNode.state review = ''CHANGES_REQUESTED''
                    then ''Changes requested on your PR'' else ''Comment on your PR''),
       Span.icon = FileDiffIcon,
       indicator = None\<rparr>"
proof -
  let ?l = "\<lparr>LatestFeedback.state = LatestNode.state review,
             commitOid = map_option oid (LatestNode.commit review)\<rparr>"
  have l: "getLatestCommentOrChangesRequested (latestReviews prData) = Some ?l"
    using assms(4-7) by (simp add: getLatestCommentOrChangesRequested_def
        firstCommentOrChangesRequested_append)
  have n: "\<not> hasNewCommitsAfterReview (commitOid ?l) (Some (headRefOid prData))"
    using assms(8) by (simp add: hasNewCommitsAfterReview_def)
  show ?thesis
    using own_pr_feedback [OF assms(1-3) l n] by (simp add: feedbackBadge_def)
qed

text \<open>
  The rule at a pull request whose latest reviews are an approval, a request for changes
  on the head commit and an older comment.
\<close>

definition pr_feedback :: PrData where
  "pr_feedback = \<lparr>isDraft = False, title = ''Add feature'',
      PrData.author = Some \<lparr>login = ''me''\<rparr>,
      reviews = Some \<lparr>nodes = [alice_approved]\<rparr>,
      reviewThreads = None,
      latestReviews = Some \<lparr>nodes =
        [\<lparr>LatestNode.state = ''APPROVED'', LatestNode.commit = Some \<lparr>oid = ''abc''\<rparr>\<rparr>,
         \<lparr>LatestNode.state = ''CHANGES_REQUESTED'', LatestNode.commit = Some \<lparr>oid = ''abc''\<rparr>\<rparr>,
         \<lparr>LatestNode.state = ''COMMENTED'', LatestNode.commit = Some \<lparr>oid = ''old''\<rparr>\<rparr>]\<rparr>,
      viewerLatestReview = None,
      headRefOid = ''abc''\<rparr>"

lemma count_pr_feedback: "getApprovalCount (reviews pr_feedback) = 1"
  by (simp add: pr_feedback_def getApprovalCount_def addApprover_def truthy_def alice_approved_def)

theorem feedback_pending_witness:
  "isMyPr pr_feedback (Some ''me'') \<and> \<not> isDraft pr_feedback
   \<and> getApprovalCount (reviews pr_feedback) < 2
   \<and> createReviewBadge (\<lambda>p. p) pr_feedback (Some ''me'') = Some
      \<lparr>Span.className = ''rgh-pr-review-status tooltipped tooltipped-n rgh-review-status-feedback'',
       ariaLabel = ''Changes requested on your PR'',
       Span.icon = FileDiffIcon,
       indicator = None\<rparr>"
proof -
  let ?newer = "[\<lparr>LatestNode.state = ''APPROVED'', LatestNode.commit = Some \<lparr>oid = ''abc''\<rparr>\<rparr>]"
  let ?review = "\<lparr>LatestNode.state = ''CHANGES_REQUESTED'', LatestNode.commit = Some \<lparr>oid = ''abc''\<rparr>\<rparr>"
  let ?older = "[\<lparr>LatestNode.state = ''COMMENTED'', LatestNode.commit = Some \<lparr>oid = ''old''\<rparr>\<rparr>]"
  have m: "isMyPr pr_feedback (Some ''me'')" by (simp add: pr_feedback_def isMyPr_def)
  have d: "\<not> isDraft pr_feedback" by (simp add: pr_feedback_def)
  have c: "getApprovalCount (reviews pr_feedback) < 2" by (simp add: count_pr_feedback)
  have l: "latestReviews pr_feedback = Some \<lparr>nodes = ?newer @ ?review # ?older\<rparr>"
    by (simp add: pr_feedback_def)
  have n: "nodes \<lparr>nodes = ?newer @ ?review # ?older\<rparr> = ?newer @ ?review # ?older" by simp
  have b: "list_all (\<lambda>r. \<not> isFeedbackState (LatestNode.state r)) ?newer"
    by (simp add: isFeedbackState_def)
  have r: "isFeedbackState (LatestNode.state ?review)" by (simp add: isFeedbackState_def)
  have h: "map_option oid (LatestNode.commit ?review) = Some (headRefOid pr_feedback)"
    by (simp add: pr_feedback_def)
  show ?thesis
    using feedback_pending [OF m d c l n b r h, of "\<lambda>p. p"] m d c by simp
qed

subsection \<open>Rule 4: review needed\<close>

definition reviewNeededBadge :: Span where
  "reviewNeededBadge =
     \<lparr>Span.className = ''rgh-pr-review-status tooltipped tooltipped-n rgh-review-status-needed'',
      ariaLabel = ''Review needed'',
      Span.icon = EyeIcon,
      indicator = None\<rparr>"

lemma createReviewBadge_label:
  "createReviewBadge getURL prData viewer = Some b \<Longrightarrow> ariaLabel b = ''Review needed''
     \<Longrightarrow> needsReview (reviewStateOf prData) (isDraft prData) (title prData)"
  apply (cases "reviewStateOf prData")
   apply (auto simp: createReviewBadge_def Let_def split: if_splits option.splits)[1]
  subgoal for s
    by (cases s) (auto simp: createReviewBadge_def Let_def split: if_splits option.splits)
  done

text \<open>
  Claim C3. For a pull request the viewer did not author (so that rules 1 to 3 do not
  apply), with no review by the viewer, not a draft, and a title that does not contain
  \<open>wip\<close> in any case, \<open>createReviewBadge\<close> returns the review-needed badge. A
  title that contains \<open>wip\<close> in any case never gets the review-needed badge, and with
  no review by the viewer it gets no badge at all.
\<close>

theorem review_needed:
  "(\<not> isMyPr prData viewer \<and> reviewStateOf prData = None \<and> \<not> isDraft prData
      \<and> \<not> containsWipAnyCase (title prData)
     \<longrightarrow> createReviewBadge getURL prData viewer = Some reviewNeededBadge)
   \<and> (containsWipAnyCase (title prData)
     \<longrightarrow> createReviewBadge getURL prData viewer \<noteq> Some reviewNeededBadge)
   \<and> (\<not> isMyPr prData viewer \<and> reviewStateOf prData = None \<and> containsWipAnyCase (title prData)
     \<longrightarrow> createReviewBadge getURL prData viewer = None)"
proof (intro conjI impI)
  assume "\<not> isMyPr prData viewer \<and> reviewStateOf prData = None \<and> \<not> isDraft prData
      \<and> \<not> containsWipAnyCase (title prData)"
  then show "createReviewBadge getURL prData viewer = Some reviewNeededBadge"
    by (simp add: createReviewBadge_def isReadyToMerge_def needsReview_def Let_def
        titleContainsWip_iff reviewNeededBadge_def)
next
  assume w: "containsWipAnyCase (title prData)"
  show "createReviewBadge getURL prData viewer \<noteq> Some reviewNeededBadge"
  proof
    assume "createReviewBadge getURL prData viewer = Some reviewNeededBadge"
    then have "needsReview (reviewStateOf prData) (isDraft prData) (title prData)"
      by (rule createReviewBadge_label) (simp add: reviewNeededBadge_def)
    with w show False by (simp add: needsReview_def titleContainsWip_iff)
  qed
next
  assume "\<not> isMyPr prData viewer \<and> reviewStateOf prData = None \<and> containsWipAnyCase (title prData)"
  then show "createReviewBadge getURL prData viewer = None"
    by (simp add: createReviewBadge_def isReadyToMerge_def needsReview_def Let_def
        titleContainsWip_iff)
qed

text \<open>
  The rule at a pull request titled "Add feature", and at one titled "WiP: add feature".
\<close>

definition pr_needed :: PrData where
  "pr_needed = \<lparr>isDraft = False, title = ''Add feature'',
      PrData.author = Some \<lparr>login = ''alice''\<rparr>,
      reviews = None, reviewThreads = None, latestReviews = None,
      viewerLatestReview = None,
      headRefOid = ''abc''\<rparr>"

definition pr_wip :: PrData where
  "pr_wip = \<lparr>isDraft = False, title = ''WiP: add feature'',
      PrData.author = Some \<lparr>login = ''alice''\<rparr>,
      reviews = None, reviewThreads = None, latestReviews = None,
      viewerLatestReview = None,
      headRefOid = ''abc''\<rparr>"

lemma lower_char_simps:
  "lower_char CHR ''W'' = CHR ''w''" "lower_char CHR ''P'' = CHR ''p''"
  "lower_char CHR ''A'' = CHR ''a''" "lower_char CHR ''i'' = CHR ''i''"
  "lower_char CHR ''d'' = CHR ''d''" "lower_char CHR '' '' = CHR '' ''"
  "lower_char CHR ''f'' = CHR ''f''" "lower_char CHR ''e'' = CHR ''e''"
  "lower_char CHR ''a'' = CHR ''a''" "lower_char CHR ''t'' = CHR ''t''"
  "lower_char CHR ''u'' = CHR ''u''" "lower_char CHR ''r'' = CHR ''r''"
  "lower_char CHR '':'' = CHR '':''"
  by (simp_all add: lower_char_def upper_letters_def lower_letters_def)

lemma wip_pr_needed: "\<not> containsWipAnyCase (title pr_needed)"
  unfolding titleContainsWip_iff [symmetric]
  by (simp add: pr_needed_def toLowerCase_def lower_char_simps)

lemma wip_pr_wip: "containsWipAnyCase (title pr_wip)"
  unfolding titleContainsWip_iff [symmetric]
  by (simp add: pr_wip_def toLowerCase_def lower_char_simps)

theorem review_needed_witness:
  "\<not> isMyPr pr_needed (Some ''me'') \<and> reviewStateOf pr_needed = None \<and> \<not> isDraft pr_needed
   \<and> \<not> containsWipAnyCase (title pr_needed)
   \<and> createReviewBadge (\<lambda>p. p) pr_needed (Some ''me'') = Some reviewNeededBadge
   \<and> \<not> isMyPr pr_wip (Some ''me'') \<and> reviewStateOf pr_wip = None
   \<and> containsWipAnyCase (title pr_wip)
   \<and> createReviewBadge (\<lambda>p. p) pr_wip (Some ''me'') = None"
proof -
  have a: "\<not> isMyPr pr_needed (Some ''me'')" "reviewStateOf pr_needed = None" "\<not> isDraft pr_needed"
    by (simp_all add: pr_needed_def isMyPr_def reviewStateOf_def)
  have b: "\<not> isMyPr pr_wip (Some ''me'')" "reviewStateOf pr_wip = None"
    by (simp_all add: pr_wip_def isMyPr_def reviewStateOf_def)
  show ?thesis
    using review_needed [of pr_needed "Some ''me''" "\<lambda>p. p"]
      review_needed [of pr_wip "Some ''me''" "\<lambda>p. p"] a b wip_pr_needed wip_pr_wip
    by simp
qed

subsection \<open>Rule 6: the viewer's own review\<close>

text \<open>
  The local constants \<^verbatim>\<open>reviewCommitOid\<close> and \<^verbatim>\<open>hasNewCommits\<close> at the
  end of \<open>createReviewBadge\<close>, and the badge that is returned there for a review
  state and a value of \<^verbatim>\<open>hasNewCommits\<close>.
\<close>

definition viewerReviewCommitOid :: "PrData \<Rightarrow> string option" where
  "viewerReviewCommitOid prData =
     map_option oid (Option.bind (viewerLatestReview prData) ViewerReview.commit)"

definition newCommitsSinceViewerReview :: "PrData \<Rightarrow> bool" where
  "newCommitsSinceViewerReview prData =
     hasNewCommitsAfterReview (viewerReviewCommitOid prData) (Some (headRefOid prData))"

definition viewerReviewBadge :: "ReviewState \<Rightarrow> bool \<Rightarrow> Span" where
  "viewerReviewBadge s updated =
     \<lparr>Span.className = ''rgh-pr-review-status tooltipped tooltipped-n ''
         @ (if updated then ''rgh-review-status-updated'' else ''rgh-review-status-reviewed''),
      ariaLabel = (case s of
                     APPROVED \<Rightarrow> ''You approved this PR''
                   | CHANGES_REQUESTED \<Rightarrow> ''You requested changes on this PR''
                   | _ \<Rightarrow> ''You commented on this PR'')
         @ (if updated then '' (new commits since review)'' else ''''),
      Span.icon = (case s of APPROVED \<Rightarrow> CheckIcon | CHANGES_REQUESTED \<Rightarrow> XIcon | _ \<Rightarrow> CommentIcon),
      indicator = (if updated then Some ''New commits since your review'' else None)\<rparr>"

lemma hasNewCommitsAfterReview_iff:
  "hasNewCommitsAfterReview r h \<longleftrightarrow>
     (\<exists>a b. r = Some a \<and> h = Some b \<and> a \<noteq> [] \<and> b \<noteq> [] \<and> a \<noteq> b)"
  by (cases r; cases h) (auto simp: hasNewCommitsAfterReview_def truthy_def)

lemma other_pr_review:
  assumes "\<not> isMyPr prData viewer" and "reviewStateOf prData = Some s"
    and "s = APPROVED \<or> s = CHANGES_REQUESTED \<or> s = COMMENTED"
  shows "createReviewBadge getURL prData viewer =
           Some (viewerReviewBadge s (newCommitsSinceViewerReview prData))"
  using assms
  by (auto simp: createReviewBadge_def isReadyToMerge_def needsReview_def Let_def
      viewerReviewBadge_def newCommitsSinceViewerReview_def viewerReviewCommitOid_def)

text \<open>
  Claim C4. For a pull request the viewer did not author and that the viewer has
  approved, requested changes on or commented on, \<open>createReviewBadge\<close> returns the
  badge of that review state (its icon and label). The badge is the "updated" variant
  (class \<^verbatim>\<open>rgh-review-status-updated\<close>, label suffix and indicator for new
  commits) exactly when the head commit has moved on from the reviewed commit: both
  commit ids are present and non-empty, and they differ. Otherwise it has the class
  \<^verbatim>\<open>rgh-review-status-reviewed\<close> and no indicator.
\<close>

theorem viewer_review_badge:
  assumes "\<not> isMyPr prData viewer" and "reviewStateOf prData = Some s"
    and "s = APPROVED \<or> s = CHANGES_REQUESTED \<or> s = COMMENTED"
  shows "createReviewBadge getURL prData viewer =
           Some (viewerReviewBadge s (newCommitsSinceViewerReview prData))
     \<and> (newCommitsSinceViewerReview prData \<longleftrightarrow>
          (\<exists>review c. viewerLatestReview prData = Some review
             \<and> ViewerReview.commit review = Some c
             \<and> oid c \<noteq> [] \<and> headRefOid prData \<noteq> [] \<and> oid c \<noteq> headRefOid prData))"
proof
  show "createReviewBadge getURL prData viewer =
           Some (viewerReviewBadge s (newCommitsSinceViewerReview prData))"
    using assms by (rule other_pr_review)
  show "newCommitsSinceViewerReview prData \<longleftrightarrow>
          (\<exists>review c. viewerLatestReview prData = Some review
             \<and> ViewerReview.commit review = Some c
             \<and> oid c \<noteq> [] \<and> headRefOid prData \<noteq> [] \<and> oid c \<noteq> headRefOid prData)"
    by (cases "viewerLatestReview prData")
       (auto simp: newCommitsSinceViewerReview_def viewerReviewCommitOid_def
          hasNewCommitsAfterReview_iff)
qed

text \<open>
  The rule at an approval made on commit \<open>abc\<close> of a pull request whose head is
  \<open>def\<close>.
\<close>

definition pr_reviewed :: PrData where
  "pr_reviewed = \<lparr>isDraft = False, title = ''Add feature'',
      PrData.author = Some \<lparr>login = ''alice''\<rparr>,
      reviews = None, reviewThreads = None, latestReviews = None,
      viewerLatestReview = Some \<lparr>ViewerReview.state = Some APPROVED,
                                 ViewerReview.commit = Some \<lparr>oid = ''abc''\<rparr>\<rparr>,
      headRefOid = ''def''\<rparr>"

theorem viewer_review_badge_witness:
  "\<not> isMyPr pr_reviewed (Some ''me'') \<and> reviewStateOf pr_reviewed = Some APPROVED
   \<and> newCommitsSinceViewerReview pr_reviewed
   \<and> createReviewBadge (\<lambda>p. p) pr_reviewed (Some ''me'') = Some
      \<lparr>Span.className = ''rgh-pr-review-status tooltipped tooltipped-n rgh-review-status-updated'',
       ariaLabel = ''You approved this PR (new commits since review)'',
       Span.icon = CheckIcon,
       indicator = Some ''New commits since your review''\<rparr>"
proof -
  have a: "\<not> isMyPr pr_reviewed (Some ''me'')" by (simp add: pr_reviewed_def isMyPr_def)
  have b: "reviewStateOf pr_reviewed = Some APPROVED" by (simp add: pr_reviewed_def reviewStateOf_def)
  have c: "APPROVED = APPROVED \<or> APPROVED = CHANGES_REQUESTED \<or> APPROVED = COMMENTED" by simp
  have n: "newCommitsSinceViewerReview pr_reviewed"
    by (simp add: newCommitsSinceViewerReview_def viewerReviewCommitOid_def pr_reviewed_def
        hasNewCommitsAfterReview_def truthy_def)
  show ?thesis
    using viewer_review_badge [OF a b c, of "\<lambda>p. p"] a b n by (simp add: viewerReviewBadge_def)
qed

subsection \<open>Rule 3: the viewer's own pull request\<close>


text \<open>
  A pull request of the viewer's own, not a draft and without approvals, whose only
  review is a comment that carries no commit.
\<close>

definition pr_no_commit :: PrData where
  "pr_no_commit = \<lparr>isDraft = False, title = ''Add feature'',
      PrData.author = Some \<lparr>login = ''me''\<rparr>,
      reviews = None, reviewThreads = None,
      latestReviews = Some \<lparr>nodes = [\<lparr>LatestNode.state = ''COMMENTED'', LatestNode.commit = None\<rparr>]\<rparr>,
      viewerLatestReview = None,
      headRefOid = ''abc''\<rparr>"

lemma latest_pr_no_commit:
  "getLatestCommentOrChangesRequested (latestReviews pr_no_commit) =
     Some \<lparr>LatestFeedback.state = ''COMMENTED'', commitOid = None\<rparr>"
  by (simp add: pr_no_commit_def getLatestCommentOrChangesRequested_def)


text \<open>
  The two rules for the viewer's own pull request, as \<open>createReviewBadge\<close> tests them.
\<close>

definition feedbackPendingApplies :: "PrData \<Rightarrow> string option \<Rightarrow> bool" where
  "feedbackPendingApplies prData viewer =
     (isMyPr prData viewer \<and> \<not> isDraft prData
      \<and> (\<exists>l. getLatestCommentOrChangesRequested (latestReviews prData) = Some l
             \<and> \<not> hasNewCommitsAfterReview (commitOid l) (Some (headRefOid prData))))"

definition readyToMergeApplies :: "PrData \<Rightarrow> string option \<Rightarrow> bool" where
  "readyToMergeApplies prData viewer =
     (isMyPr prData viewer \<and> \<not> isDraft prData \<and> 2 \<le> getApprovalCount (reviews prData))"

lemma own_pr_exhausted:
  assumes "isMyPr prData viewer" and "\<not> readyToMergeApplies prData viewer"
    and "\<not> feedbackPendingApplies prData viewer"
  shows "createReviewBadge getURL prData viewer = None"
  using assms
  by (auto simp: createReviewBadge_def isReadyToMerge_def Let_def readyToMergeApplies_def
      feedbackPendingApplies_def split: option.splits)





subsection \<open>Missing commit ids\<close>

text \<open>
  Claim C9. \<open>hasNewCommitsAfterReview\<close> is true exactly when both commit ids are
  present (not \<^verbatim>\<open>undefined\<close> and, by JavaScript truthiness, not empty) and
  differ; it is false as soon as one of them is missing. Hence, when the most recent
  feedback review on the viewer's own pull request carries no commit id, the feedback
  badge is shown although no commit equality holds, and when the viewer's review of
  someone else's pull request carries no commit id, the badge is the variant that is not
  "updated".
\<close>

theorem missing_commit_id:
  "(hasNewCommitsAfterReview reviewCommitOid headOid \<longleftrightarrow>
      (\<exists>a b. reviewCommitOid = Some a \<and> headOid = Some b \<and> a \<noteq> [] \<and> b \<noteq> [] \<and> a \<noteq> b))
   \<and> \<not> hasNewCommitsAfterReview None headOid
   \<and> \<not> hasNewCommitsAfterReview reviewCommitOid None
   \<and> \<not> hasNewCommitsAfterReview (Some []) headOid
   \<and> \<not> hasNewCommitsAfterReview reviewCommitOid (Some [])
   \<and> (isMyPr prData viewer \<and> \<not> isDraft prData \<and> getApprovalCount (reviews prData) < 2
      \<and> getLatestCommentOrChangesRequested (latestReviews prData) = Some l
      \<and> (commitOid l = None \<or> headRefOid prData = [])
     \<longrightarrow> createReviewBadge getURL prData viewer =
           Some (feedbackBadge (LatestFeedback.state l = ''CHANGES_REQUESTED'')))
   \<and> (\<not> isMyPr prData viewer \<and> reviewStateOf prData = Some s
      \<and> (s = APPROVED \<or> s = CHANGES_REQUESTED \<or> s = COMMENTED)
      \<and> (viewerReviewCommitOid prData = None \<or> headRefOid prData = [])
     \<longrightarrow> createReviewBadge getURL prData viewer = Some (viewerReviewBadge s False))"
proof (intro conjI impI)
  show "hasNewCommitsAfterReview reviewCommitOid headOid \<longleftrightarrow>
      (\<exists>a b. reviewCommitOid = Some a \<and> headOid = Some b \<and> a \<noteq> [] \<and> b \<noteq> [] \<and> a \<noteq> b)"
    by (rule hasNewCommitsAfterReview_iff)
next
  assume a: "isMyPr prData viewer \<and> \<not> isDraft prData \<and> getApprovalCount (reviews prData) < 2
      \<and> getLatestCommentOrChangesRequested (latestReviews prData) = Some l
      \<and> (commitOid l = None \<or> headRefOid prData = [])"
  then have "\<not> hasNewCommitsAfterReview (commitOid l) (Some (headRefOid prData))"
    by (auto simp: hasNewCommitsAfterReview_def truthy_def)
  with a show "createReviewBadge getURL prData viewer =
           Some (feedbackBadge (LatestFeedback.state l = ''CHANGES_REQUESTED''))"
    by (intro own_pr_feedback) simp_all
next
  assume a: "\<not> isMyPr prData viewer \<and> reviewStateOf prData = Some s
      \<and> (s = APPROVED \<or> s = CHANGES_REQUESTED \<or> s = COMMENTED)
      \<and> (viewerReviewCommitOid prData = None \<or> headRefOid prData = [])"
  then have "\<not> newCommitsSinceViewerReview prData"
    by (auto simp: newCommitsSinceViewerReview_def hasNewCommitsAfterReview_def truthy_def)
  with a other_pr_review [of prData viewer s getURL]
  show "createReviewBadge getURL prData viewer = Some (viewerReviewBadge s False)"
    by simp
qed (simp_all add: hasNewCommitsAfterReview_def truthy_def)

text \<open>
  The function at two different commit ids, the feedback badge for a comment without
  commit, and the viewer's comment without commit.
\<close>

definition pr_reviewed_no_commit :: PrData where
  "pr_reviewed_no_commit = \<lparr>isDraft = False, title = ''Add feature'',
      PrData.author = Some \<lparr>login = ''alice''\<rparr>,
      reviews = None, reviewThreads = None, latestReviews = None,
      viewerLatestReview = Some \<lparr>ViewerReview.state = Some COMMENTED, ViewerReview.commit = None\<rparr>,
      headRefOid = ''def''\<rparr>"

theorem missing_commit_id_witness:
  "hasNewCommitsAfterReview (Some ''abc'') (Some ''def'')
   \<and> isMyPr pr_no_commit (Some ''me'') \<and> \<not> isDraft pr_no_commit
   \<and> getApprovalCount (reviews pr_no_commit) < 2
   \<and> getLatestCommentOrChangesRequested (latestReviews pr_no_commit)
        = Some \<lparr>LatestFeedback.state = ''COMMENTED'', commitOid = None\<rparr>
   \<and> createReviewBadge (\<lambda>p. p) pr_no_commit (Some ''me'') = Some
      \<lparr>Span.className = ''rgh-pr-review-status tooltipped tooltipped-n rgh-review-status-feedback'',
       ariaLabel = ''Comment on your PR'',
       Span.icon = FileDiffIcon,
       indicator = None\<rparr>
   \<and> \<not> isMyPr pr_reviewed_no_commit (Some ''me'')
   \<and> reviewStateOf pr_reviewed_no_commit = Some COMMENTED
   \<and> viewerReviewCommitOid pr_reviewed_no_commit = None
   \<and> createReviewBadge (\<lambda>p. p) pr_reviewed_no_commit (Some ''me'') = Some
      \<lparr>Span.className = ''rgh-pr-review-status tooltipped tooltipped-n rgh-review-status-reviewed'',
       ariaLabel = ''You commented on this PR'',
       Span.icon = CommentIcon,
       indicator = None\<rparr>"
proof -
  have m: "isMyPr pr_no_commit (Some ''me'')" "\<not> isDraft pr_no_commit"
      "getApprovalCount (reviews pr_no_commit) < 2"
    by (simp_all add: pr_no_commit_def isMyPr_def getApprovalCount_def)
  have l: "commitOid \<lparr>LatestFeedback.state = ''COMMENTED'', commitOid = None\<rparr> = None" by simp
  have v: "\<not> isMyPr pr_reviewed_no_commit (Some ''me'')"
      "reviewStateOf pr_reviewed_no_commit = Some COMMENTED"
      "viewerReviewCommitOid pr_reviewed_no_commit = None"
    by (simp_all add: pr_reviewed_no_commit_def isMyPr_def reviewStateOf_def viewerReviewCommitOid_def)
  show ?thesis
    using missing_commit_id [of "Some ''abc''" "Some ''def''" pr_no_commit "Some ''me''"
        "\<lparr>LatestFeedback.state = ''COMMENTED'', commitOid = None\<rparr>" "\<lambda>p. p" COMMENTED]
      missing_commit_id [of "Some ''abc''" "Some ''def''" pr_reviewed_no_commit "Some ''me''"
        "\<lparr>LatestFeedback.state = ''COMMENTED'', commitOid = None\<rparr>" "\<lambda>p. p" COMMENTED]
      m latest_pr_no_commit v
    by (simp add: feedbackBadge_def viewerReviewBadge_def)
qed

section \<open>Properties of the annotation routine\<close>

subsection \<open>Badges in rows\<close>

text \<open>Every badge that \<open>createReviewBadge\<close> returns carries the class
  \<^verbatim>\<open>rgh-pr-review-status\<close>, by which the routine recognises its own badges.\<close>

lemma classList_status_prefix:
  "classList (''rgh-pr-review-status tooltipped tooltipped-n '' @ rest)
     = ''rgh-pr-review-status'' # ''tooltipped'' # ''tooltipped-n'' # classList rest"
  by (simp add: classList_def isSpace_def)

lemma createReviewBadge_className:
  assumes "createReviewBadge url prData viewer = Some badge"
  shows "\<exists>rest. Span.className badge = ''rgh-pr-review-status tooltipped tooltipped-n '' @ rest"
proof -
  have "Span.className badge \<in>
      {''rgh-pr-review-status tooltipped tooltipped-n rgh-review-status-to-merge'',
       ''rgh-pr-review-status tooltipped tooltipped-n rgh-review-status-feedback'',
       ''rgh-pr-review-status tooltipped tooltipped-n rgh-review-status-needed'',
       ''rgh-pr-review-status tooltipped tooltipped-n rgh-review-status-updated'',
       ''rgh-pr-review-status tooltipped tooltipped-n rgh-review-status-reviewed''}"
    using assms
    by (auto simp: createReviewBadge_def Let_def split: if_splits option.splits)
  then show ?thesis by auto
qed

lemma createReviewBadge_isStatusBadge:
  assumes "createReviewBadge url prData viewer = Some badge"
  shows "isStatusBadge (Element badge)"
proof -
  from createReviewBadge_className [OF assms] obtain rest
    where "Span.className badge = ''rgh-pr-review-status tooltipped tooltipped-n '' @ rest" ..
  then show ?thesis
    by (simp only: isStatusBadge.simps classList_status_prefix) simp
qed

text \<open>
  A link lies in a row; the row of a link carries a badge; the next sibling of a link is
  a badge; the number of badges of a row; the links of a row.
\<close>

definition inRow :: "Page \<Rightarrow> Link \<Rightarrow> bool" where
  "inRow pg l = (closest pg l \<noteq> None)"

definition badged :: "Page \<Rightarrow> Link \<Rightarrow> bool" where
  "badged pg l = (case closest pg l of None \<Rightarrow> False | Some row \<Rightarrow> querySelector row \<noteq> None)"

definition nextIsBadge :: "Page \<Rightarrow> Link \<Rightarrow> bool" where
  "nextIsBadge pg l = (case nextElementSibling pg l of None \<Rightarrow> False | Some n \<Rightarrow> isStatusBadge n)"

definition badgeCount :: "Row \<Rightarrow> nat" where
  "badgeCount row = length (filter isStatusBadge row)"

definition anchorsOf :: "Row \<Rightarrow> Link list" where
  "anchorsOf row = concat (map (\<lambda>n. case n of Anchor l \<Rightarrow> [l] | Element e \<Rightarrow> []) row)"

lemma notYetProcessed_iff: "notYetProcessed pg l \<longleftrightarrow> inRow pg l \<and> \<not> badged pg l"
  by (simp add: notYetProcessed_def inRow_def badged_def split: option.splits)

lemma querySelector_None: "querySelector row = None \<longleftrightarrow> badgeCount row = 0"
  by (auto simp: querySelector_def badgeCount_def find_None_iff filter_empty_conv)

lemma closest_SomeD: "closest pg l = Some row \<Longrightarrow> row \<in> set pg \<and> Anchor l \<in> set row"
  by (auto simp: closest_def find_Some_iff)

text \<open>Inserting a badge after a link keeps the links of the row and adds one badge.\<close>

lemma anchor_insertAfter [simp]:
  "Anchor k \<in> set (insertAfter l b row) \<longleftrightarrow> Anchor k \<in> set row"
  by (induction row) auto

lemma anchorsOf_insertAfter [simp]: "anchorsOf (insertAfter l b row) = anchorsOf row"
  by (induction row) (auto simp: anchorsOf_def)

lemma badgeCount_insertAfter:
  "badgeCount (insertAfter l b row) =
     badgeCount row + (if Anchor l \<in> set row \<and> isStatusBadge (Element b) then 1 else 0)"
  by (induction row) (auto simp: badgeCount_def)

lemma nextInRow_insertAfter:
  "Anchor l \<in> set row \<Longrightarrow> nextInRow l (insertAfter l b row) = Some (Element b)"
  by (induction row) auto

lemma nextInRow_mem: "nextInRow l row = Some n \<Longrightarrow> n \<in> set row"
  by (induction row) (auto split: if_splits list.splits)

lemma anchorsOf_mem: "l \<in> set (anchorsOf row) \<longleftrightarrow> Anchor l \<in> set row"
  by (induction row) (auto simp: anchorsOf_def split: Node.splits)

lemma single_anchor:
  assumes "length (anchorsOf row) \<le> 1" and "Anchor k \<in> set row" and "Anchor l \<in> set row"
  shows "k = l"
proof -
  from assms(2,3) have "k \<in> set (anchorsOf row)" "l \<in> set (anchorsOf row)"
    by (simp_all add: anchorsOf_mem)
  with assms(1) show ?thesis
    by (cases "anchorsOf row") auto
qed

text \<open>
  On the page, \<open>after\<close> changes the row of the link and no other row, and every
  link stays in its row.
\<close>

lemma after_outside: "closest pg l = None \<Longrightarrow> after l b pg = pg"
  by (induction pg) (auto simp: closest_def split: if_splits)

lemma closest_after:
  "closest (after l b pg) k =
     map_option (\<lambda>row. if closest pg l = Some row then insertAfter l b row else row) (closest pg k)"
proof (induction pg)
  case Nil
  show ?case by (simp add: closest_def)
next
  case (Cons row rows)
  show ?case
  proof (cases "Anchor l \<in> set row")
    case l_here: True
    show ?thesis
    proof (cases "Anchor k \<in> set row")
      case True
      with l_here show ?thesis by (simp add: closest_def)
    next
      case k_not_here: False
      show ?thesis
      proof (cases "find (\<lambda>row. Anchor k \<in> set row) rows")
        case None
        with l_here k_not_here show ?thesis by (simp add: closest_def)
      next
        case (Some other)
        then have "Anchor k \<in> set other" by (auto simp: find_Some_iff)
        with k_not_here have "row \<noteq> other" by auto
        with l_here k_not_here Some show ?thesis by (simp add: closest_def)
      qed
    qed
  next
    case False
    then have "find (\<lambda>row. Anchor l \<in> set row) rows \<noteq> Some row"
      by (auto simp: find_Some_iff)
    with False Cons show ?thesis
      by (auto simp: closest_def)
  qed
qed

lemma set_after:
  "set (after l b pg) \<subseteq>
     set pg \<union> (case closest pg l of None \<Rightarrow> {} | Some row \<Rightarrow> {insertAfter l b row})"
  by (induction pg) (auto simp: closest_def split: option.splits)

lemma inRow_after [simp]: "inRow (after l b pg) k = inRow pg k"
  by (simp add: inRow_def closest_after)

lemma badged_after: "badged pg k \<Longrightarrow> badged (after l b pg) k"
  by (auto simp: badged_def closest_after querySelector_None badgeCount_insertAfter
      split: option.splits)

lemma badged_after_self:
  "inRow pg l \<Longrightarrow> isStatusBadge (Element b) \<Longrightarrow> badged (after l b pg) l"
  by (auto simp: badged_def inRow_def closest_after querySelector_None badgeCount_insertAfter
      dest: closest_SomeD split: option.splits)

lemma nextIsBadge_badged: "nextIsBadge pg l \<Longrightarrow> badged pg l"
  by (auto simp: nextIsBadge_def nextElementSibling_def badged_def querySelector_def
      find_None_iff dest: nextInRow_mem split: option.splits)

subsection \<open>The loop\<close>

text \<open>
  The data of a pull request in the response, when it is there; a pull request for which
  the loop would create a badge; a page whose rows hold at most one badge and at most one
  pull-request link each; and the loop invariant: the row of a link of the batch has no
  badge unless the badge is the next sibling of the link.
\<close>

definition prDataOf :: "(string \<rightharpoonup> Repository) \<Rightarrow> PrConfig \<Rightarrow> PrData option" where
  "prDataOf data pr = Option.bind (data (key pr)) pullRequest"

definition effective ::
    "(string \<Rightarrow> string) \<Rightarrow> (string \<rightharpoonup> Repository) \<Rightarrow> string option \<Rightarrow> PrConfig \<Rightarrow> bool" where
  "effective url data viewer pr =
     (case prDataOf data pr of None \<Rightarrow> False | Some prData \<Rightarrow> createReviewBadge url prData viewer \<noteq> None)"

definition tidy :: "Page \<Rightarrow> bool" where
  "tidy pg = list_all (\<lambda>row. badgeCount row \<le> 1 \<and> length (anchorsOf row) \<le> 1) pg"

definition guarded :: "Link set \<Rightarrow> Page \<Rightarrow> bool" where
  "guarded L pg = (\<forall>l \<in> L. badged pg l \<longrightarrow> nextIsBadge pg l)"

lemma annotateRow_missing: "prDataOf data pr = None \<Longrightarrow> annotateRow url data viewer pr pg = pg"
  by (simp add: annotateRow_def prDataOf_def)

lemma annotateRow_guard: "nextIsBadge pg (link pr) \<Longrightarrow> annotateRow url data viewer pr pg = pg"
  by (simp add: annotateRow_def nextIsBadge_def split: option.splits)

lemma annotateRow_not_effective:
  "\<not> effective url data viewer pr \<Longrightarrow> annotateRow url data viewer pr pg = pg"
  by (auto simp: annotateRow_def effective_def prDataOf_def split: option.splits)

lemma annotateRow_cases:
  "annotateRow url data viewer pr pg = pg
   \<or> (\<exists>prData badge. prDataOf data pr = Some prData \<and> \<not> nextIsBadge pg (link pr)
         \<and> createReviewBadge url prData viewer = Some badge
         \<and> annotateRow url data viewer pr pg = after (link pr) badge pg)"
  by (auto simp: annotateRow_def prDataOf_def nextIsBadge_def split: option.splits)

lemma inRow_annotateRow [simp]: "inRow (annotateRow url data viewer pr pg) k = inRow pg k"
  using annotateRow_cases [of url data viewer pr pg] by auto

lemma badged_annotateRow: "badged pg k \<Longrightarrow> badged (annotateRow url data viewer pr pg) k"
  using annotateRow_cases [of url data viewer pr pg] by (auto intro: badged_after)

lemma badged_annotateRow_self:
  assumes "effective url data viewer pr" and "inRow pg (link pr)"
  shows "badged (annotateRow url data viewer pr pg) (link pr)"
proof -
  from assms(1) obtain prData badge where d: "prDataOf data pr = Some prData"
      and b: "createReviewBadge url prData viewer = Some badge"
    by (auto simp: effective_def split: option.splits)
  show ?thesis
  proof (cases "nextIsBadge pg (link pr)")
    case True
    then show ?thesis by (simp add: annotateRow_guard nextIsBadge_badged)
  next
    case False
    with d b have "annotateRow url data viewer pr pg = after (link pr) badge pg"
      by (simp add: annotateRow_def prDataOf_def nextIsBadge_def split: option.splits)
    moreover from b have "isStatusBadge (Element badge)"
      by (rule createReviewBadge_isStatusBadge)
    ultimately show ?thesis
      using badged_after_self [OF assms(2)] by simp
  qed
qed

lemma inRow_annotateRows [simp]: "inRow (annotateRows url data viewer prs pg) k = inRow pg k"
  by (induction prs arbitrary: pg) simp_all

lemma badged_annotateRows: "badged pg k \<Longrightarrow> badged (annotateRows url data viewer prs pg) k"
  by (induction prs arbitrary: pg) (simp_all add: badged_annotateRow)

lemma badged_annotateRows_self:
  assumes "pr \<in> set prs" and "effective url data viewer pr" and "inRow pg (link pr)"
  shows "badged (annotateRows url data viewer prs pg) (link pr)"
  using assms
proof (induction prs arbitrary: pg)
  case Nil
  then show ?case by simp
next
  case (Cons p prs)
  show ?case
  proof (cases "pr = p")
    case True
    with Cons.prems show ?thesis
      by (simp add: badged_annotateRows badged_annotateRow_self)
  next
    case False
    with Cons show ?thesis by simp
  qed
qed

lemma annotateRows_not_effective:
  "\<forall>pr \<in> set prs. \<not> effective url data viewer pr \<Longrightarrow> annotateRows url data viewer prs pg = pg"
  by (induction prs arbitrary: pg) (simp_all add: annotateRow_not_effective)

lemma annotateRows_append:
  "annotateRows url data viewer (xs @ ys) pg
     = annotateRows url data viewer ys (annotateRows url data viewer xs pg)"
  by (induction xs arbitrary: pg) simp_all

lemma link_toPrConfig [simp]: "link (toPrConfig env l) = l"
  by (simp add: toPrConfig_def Let_def)

lemma prConfigsOf_mem:
  "pr \<in> set (prConfigsOf env pg links) \<longleftrightarrow>
     (\<exists>l \<in> set links. notYetProcessed pg l \<and> pr = toPrConfig env l)"
  by (auto simp: prConfigsOf_def)

text \<open>
  Running the loop again, on the links that still pass the filter and with the same data
  for them, changes nothing: each of these links went through the first run without a
  badge being created for it.
\<close>

lemma annotateRows_again:
  assumes "pg1 = annotateRows url data viewer (prConfigsOf env pg links) pg"
    and "\<forall>pr \<in> set (prConfigsOf env pg1 links). data' (key pr) = data (key pr)"
  shows "annotateRows url data' viewer (prConfigsOf env pg1 links) pg1 = pg1"
proof (rule annotateRows_not_effective, rule ballI)
  fix pr assume pr: "pr \<in> set (prConfigsOf env pg1 links)"
  then obtain l where l: "l \<in> set links" "notYetProcessed pg1 l" "pr = toPrConfig env l"
    by (auto simp: prConfigsOf_mem)
  then have in1: "inRow pg1 l" and nb1: "\<not> badged pg1 l"
    by (simp_all add: notYetProcessed_iff)
  from in1 have in0: "inRow pg l" by (simp add: assms(1))
  from nb1 have "\<not> badged pg l"
    using badged_annotateRows [of pg l url data viewer "prConfigsOf env pg links"]
    by (auto simp: assms(1))
  with in0 l have mem: "pr \<in> set (prConfigsOf env pg links)"
    by (auto simp: prConfigsOf_mem notYetProcessed_iff)
  show "\<not> effective url data' viewer pr"
  proof
    assume "effective url data' viewer pr"
    moreover from assms(2) pr have k: "data' (key pr) = data (key pr)" by blast
    ultimately have "effective url data viewer pr"
      by (simp add: effective_def prDataOf_def)
    from badged_annotateRows_self [OF mem this] in0 l(3)
    have "badged pg1 l" by (simp add: assms(1))
    with nb1 show False by contradiction
  qed
qed

text \<open>The loop keeps the page tidy.\<close>

lemma tidy_iff:
  "tidy pg \<longleftrightarrow> (\<forall>row \<in> set pg. badgeCount row \<le> 1 \<and> length (anchorsOf row) \<le> 1)"
  by (simp add: tidy_def list_all_iff)

lemma after_tidy:
  assumes t: "tidy pg" and g: "guarded L pg" and l: "l \<in> L"
    and n: "\<not> nextIsBadge pg l" and b: "isStatusBadge (Element badge)"
  shows "tidy (after l badge pg) \<and> guarded L (after l badge pg)"
proof (cases "closest pg l")
  case None
  with t g show ?thesis by (simp add: after_outside)
next
  case (Some row)
  then have row: "row \<in> set pg" "Anchor l \<in> set row" by (auto dest: closest_SomeD)
  from g l n have "\<not> badged pg l" by (auto simp: guarded_def)
  with Some have zero: "badgeCount row = 0" by (simp add: badged_def querySelector_None)
  from t row have one: "length (anchorsOf row) \<le> 1" by (simp add: tidy_iff)
  have "tidy (after l badge pg)"
    unfolding tidy_iff
  proof
    fix r assume "r \<in> set (after l badge pg)"
    with set_after [of l badge pg] Some have "r \<in> set pg \<or> r = insertAfter l badge row"
      by auto
    then show "badgeCount r \<le> 1 \<and> length (anchorsOf r) \<le> 1"
      using t zero one by (auto simp: tidy_iff badgeCount_insertAfter)
  qed
  moreover have "guarded L (after l badge pg)"
    unfolding guarded_def
  proof (intro ballI impI)
    fix k assume k: "k \<in> L" and bk: "badged (after l badge pg) k"
    then obtain rk where rk: "closest pg k = Some rk"
      by (auto simp: badged_def closest_after split: option.splits)
    show "nextIsBadge (after l badge pg) k"
    proof (cases "rk = row")
      case True
      with rk have "Anchor k \<in> set row" by (auto dest: closest_SomeD)
      with one row(2) have "k = l" by (auto intro: single_anchor)
      with Some row b show ?thesis
        by (simp add: nextIsBadge_def nextElementSibling_def closest_after nextInRow_insertAfter)
    next
      case False
      with rk Some have same: "closest (after l badge pg) k = Some rk"
        by (auto simp: closest_after)
      with bk rk have "badged pg k" by (simp add: badged_def)
      with g k have "nextIsBadge pg k" by (auto simp: guarded_def)
      with same rk show ?thesis
        by (simp add: nextIsBadge_def nextElementSibling_def)
    qed
  qed
  ultimately show ?thesis ..
qed

lemma annotateRow_tidy:
  assumes "tidy pg" and "guarded L pg" and "link pr \<in> L"
  shows "tidy (annotateRow url data viewer pr pg) \<and> guarded L (annotateRow url data viewer pr pg)"
proof -
  from annotateRow_cases [of url data viewer pr pg]
  consider "annotateRow url data viewer pr pg = pg"
    | prData badge where "\<not> nextIsBadge pg (link pr)"
        "createReviewBadge url prData viewer = Some badge"
        "annotateRow url data viewer pr pg = after (link pr) badge pg"
    by blast
  then show ?thesis
  proof cases
    case 1
    with assms show ?thesis by simp
  next
    case 2
    from 2(2) have "isStatusBadge (Element badge)" by (rule createReviewBadge_isStatusBadge)
    with after_tidy [OF assms 2(1)] 2(3) show ?thesis by simp
  qed
qed

lemma annotateRows_tidy:
  assumes "tidy pg" and "guarded L pg" and "link ` set prs \<subseteq> L"
  shows "tidy (annotateRows url data viewer prs pg) \<and> guarded L (annotateRows url data viewer prs pg)"
  using assms
proof (induction prs arbitrary: pg)
  case Nil
  then show ?case by simp
next
  case (Cons pr prs)
  from Cons.prems have "link pr \<in> L" by simp
  from annotateRow_tidy [OF Cons.prems(1,2) this, of url data viewer] Cons.prems(3)
  show ?case by (simp add: Cons.IH)
qed

lemma links_prConfigsOf:
  "link ` set (prConfigsOf env pg links) = {l \<in> set links. notYetProcessed pg l}"
  by (auto simp: prConfigsOf_def image_iff)

lemma annotate_collected_tidy:
  assumes "tidy pg"
  shows "tidy (annotateRows url data viewer (prConfigsOf env pg links) pg)"
proof -
  let ?L = "{l \<in> set links. notYetProcessed pg l}"
  have "guarded ?L pg" by (simp add: guarded_def notYetProcessed_iff)
  from annotateRows_tidy [OF assms this, of "prConfigsOf env pg links" url data viewer]
  show ?thesis by (simp add: links_prConfigsOf)
qed

text \<open>
  So do two batches that were both collected before the response of either arrived: the
  check of the next sibling keeps the second from adding a badge to a row the first has
  served.
\<close>

lemma annotate_overlapping_tidy:
  assumes "tidy pg"
  shows "tidy (annotateRows url dataB viewer (prConfigsOf env pg linksB)
           (annotateRows url dataA viewer (prConfigsOf env pg linksA) pg))"
proof -
  let ?L = "{l \<in> set linksA. notYetProcessed pg l} \<union> {l \<in> set linksB. notYetProcessed pg l}"
  have g: "guarded ?L pg" by (auto simp: guarded_def notYetProcessed_iff)
  have "link ` set (prConfigsOf env pg linksA) \<subseteq> ?L" by (auto simp: links_prConfigsOf)
  from annotateRows_tidy [OF assms g this, of url dataA viewer]
  have a: "tidy (annotateRows url dataA viewer (prConfigsOf env pg linksA) pg)"
    and ga: "guarded ?L (annotateRows url dataA viewer (prConfigsOf env pg linksA) pg)"
    by simp_all
  have "link ` set (prConfigsOf env pg linksB) \<subseteq> ?L" by (auto simp: links_prConfigsOf)
  from annotateRows_tidy [OF a ga this, of url dataB viewer]
  show ?thesis by simp
qed

text \<open>
  What the loop does to the row of a link. A row is left as it is when no pull request
  of the batch with a badge to show has its link in the row, and when its link is
  followed by a badge already. A row without badge whose link is in the batch, with a
  badge to show for its pull request, gets that badge directly after the link, and
  nothing else.
\<close>

lemma annotateRow_effective_cases:
  "annotateRow url data viewer pr pg = pg
   \<or> (\<exists>badge. effective url data viewer pr
         \<and> annotateRow url data viewer pr pg = after (link pr) badge pg)"
  using annotateRow_cases [of url data viewer pr pg]
  by (auto simp: effective_def)

lemma closest_after_other:
  assumes "closest pg k = Some row" and "Anchor l \<notin> set row"
  shows "closest (after l b pg) k = Some row"
proof -
  from assms(2) have "closest pg l \<noteq> Some row" by (auto dest: closest_SomeD)
  with assms(1) show ?thesis by (simp add: closest_after)
qed

lemma closest_after_self:
  assumes "closest pg l = Some row"
  shows "closest (after l b pg) l = Some (insertAfter l b row)"
  using assms by (simp add: closest_after)

lemma annotateRow_row_untouched:
  assumes "closest pg k = Some row"
    and "Anchor (link pr) \<in> set row \<longrightarrow> \<not> effective url data viewer pr"
  shows "closest (annotateRow url data viewer pr pg) k = Some row"
  using annotateRow_effective_cases [of url data viewer pr pg] assms
  by (auto simp: closest_after_other)

lemma annotateRows_row_untouched:
  assumes "closest pg k = Some row"
    and "\<forall>pr \<in> set prs. Anchor (link pr) \<in> set row \<longrightarrow> \<not> effective url data viewer pr"
  shows "closest (annotateRows url data viewer prs pg) k = Some row"
  using assms
proof (induction prs arbitrary: pg)
  case Nil
  then show ?case by simp
next
  case (Cons pr prs)
  from Cons.prems have "closest (annotateRow url data viewer pr pg) k = Some row"
    by (intro annotateRow_row_untouched) simp_all
  with Cons.IH Cons.prems(2) show ?case by simp
qed

lemma annotateRow_row_served:
  assumes c: "closest pg l = Some row" and one: "length (anchorsOf row) \<le> 1"
    and n: "nextInRow l row = Some n" and b: "isStatusBadge n"
  shows "closest (annotateRow url data viewer pr pg) l = Some row"
proof (cases "link pr = l")
  case True
  with c n b have "nextIsBadge pg (link pr)"
    by (simp add: nextIsBadge_def nextElementSibling_def)
  then show ?thesis using c by (simp add: annotateRow_guard)
next
  case False
  from c have "Anchor l \<in> set row" by (auto dest: closest_SomeD)
  with one False have "Anchor (link pr) \<notin> set row"
    using single_anchor [of row "link pr" l] by blast
  with c show ?thesis by (intro annotateRow_row_untouched) simp_all
qed

lemma annotateRows_row_served:
  assumes "closest pg l = Some row" and "length (anchorsOf row) \<le> 1"
    and "nextInRow l row = Some n" and "isStatusBadge n"
  shows "closest (annotateRows url data viewer prs pg) l = Some row"
  using assms
proof (induction prs arbitrary: pg)
  case Nil
  then show ?case by simp
next
  case (Cons pr prs)
  from annotateRow_row_served [OF Cons.prems, of url data viewer pr]
  have "closest (annotateRow url data viewer pr pg) l = Some row" .
  from Cons.IH [OF this Cons.prems(2-4)] show ?case by simp
qed

lemma annotateRow_row_badged:
  assumes c: "closest pg (link pr) = Some row" and z: "badgeCount row = 0"
    and d: "prDataOf data pr = Some prData"
    and b: "createReviewBadge url prData viewer = Some badge"
  shows "closest (annotateRow url data viewer pr pg) (link pr)
           = Some (insertAfter (link pr) badge row)"
proof -
  have "\<not> nextIsBadge pg (link pr)"
  proof
    assume "nextIsBadge pg (link pr)"
    then have "badged pg (link pr)" by (rule nextIsBadge_badged)
    with c z show False by (simp add: badged_def querySelector_None)
  qed
  with d b have "annotateRow url data viewer pr pg = after (link pr) badge pg"
    by (simp add: annotateRow_def prDataOf_def nextIsBadge_def split: option.splits)
  with c show ?thesis by (simp add: closest_after_self)
qed

lemma annotateRows_row_badged:
  assumes "closest pg l = Some row" and "badgeCount row = 0" and "length (anchorsOf row) \<le> 1"
    and "\<forall>pr \<in> set prs. pr = toPrConfig env (link pr)"
    and "toPrConfig env l \<in> set prs"
    and "prDataOf data (toPrConfig env l) = Some prData"
    and "createReviewBadge url prData viewer = Some badge"
  shows "closest (annotateRows url data viewer prs pg) l = Some (insertAfter l badge row)"
  using assms(1,4,5)
proof (induction prs arbitrary: pg)
  case Nil
  then show ?case by simp
next
  case (Cons pr prs)
  from Cons.prems(1) have here: "Anchor l \<in> set row" by (auto dest: closest_SomeD)
  show ?case
  proof (cases "link pr = l")
    case True
    with Cons.prems(2) have pr: "pr = toPrConfig env l" by simp
    from Cons.prems(1) have "closest pg (link pr) = Some row" by (simp add: pr)
    from annotateRow_row_badged [OF this assms(2), of data prData url viewer badge] assms(6,7)
    have "closest (annotateRow url data viewer pr pg) l = Some (insertAfter l badge row)"
      by (simp add: pr)
    moreover have "length (anchorsOf (insertAfter l badge row)) \<le> 1"
      using assms(3) by simp
    moreover have "nextInRow l (insertAfter l badge row) = Some (Element badge)"
      using here by (rule nextInRow_insertAfter)
    moreover have "isStatusBadge (Element badge)"
      using assms(7) by (rule createReviewBadge_isStatusBadge)
    ultimately have "closest (annotateRows url data viewer prs (annotateRow url data viewer pr pg)) l
        = Some (insertAfter l badge row)"
      by (rule annotateRows_row_served)
    then show ?thesis by simp
  next
    case False
    with here assms(3) have "Anchor (link pr) \<notin> set row"
      using single_anchor [of row "link pr" l] by blast
    with Cons.prems(1) have "closest (annotateRow url data viewer pr pg) l = Some row"
      by (intro annotateRow_row_untouched) simp_all
    moreover from False Cons.prems(2,3) have "toPrConfig env l \<in> set prs" by auto
    ultimately show ?thesis using Cons.IH Cons.prems(2) by simp
  qed
qed

text \<open>
  Rows before and after: the elements that are not badges are the same, in the same
  order, and a row that holds no link is the same row. The loop changes rows in this way
  only.
\<close>

definition onlyBadgesAdded :: "Row \<Rightarrow> Row \<Rightarrow> bool" where
  "onlyBadgesAdded row row' =
     (filter (\<lambda>n. \<not> isStatusBadge n) row' = filter (\<lambda>n. \<not> isStatusBadge n) row
      \<and> (anchorsOf row = [] \<longrightarrow> row' = row))"

lemma onlyBadgesAdded_refl: "onlyBadgesAdded row row"
  by (simp add: onlyBadgesAdded_def)

lemma onlyBadgesAdded_trans:
  "onlyBadgesAdded r1 r2 \<Longrightarrow> onlyBadgesAdded r2 r3 \<Longrightarrow> onlyBadgesAdded r1 r3"
  by (auto simp: onlyBadgesAdded_def)

lemma insertAfter_absent: "Anchor l \<notin> set row \<Longrightarrow> insertAfter l b row = row"
  by (induction row) auto

lemma insertAfter_others:
  "isStatusBadge (Element b) \<Longrightarrow>
     filter (\<lambda>n. \<not> isStatusBadge n) (insertAfter l b row) = filter (\<lambda>n. \<not> isStatusBadge n) row"
  by (induction row) (auto simp del: isStatusBadge.simps(2))

lemma insertAfter_onlyBadgesAdded:
  assumes "isStatusBadge (Element b)"
  shows "onlyBadgesAdded row (insertAfter l b row)"
proof -
  have "anchorsOf row = [] \<Longrightarrow> Anchor l \<notin> set row"
    using anchorsOf_mem [of l row] by auto
  with assms show ?thesis
    by (auto simp: onlyBadgesAdded_def insertAfter_others insertAfter_absent
        simp del: isStatusBadge.simps(2))
qed

lemma after_onlyBadgesAdded:
  assumes "isStatusBadge (Element b)"
  shows "list_all2 onlyBadgesAdded pg (after l b pg)"
  by (induction pg)
     (simp_all add: insertAfter_onlyBadgesAdded [OF assms] onlyBadgesAdded_refl list_all2_refl)

lemma annotateRow_onlyBadgesAdded:
  "list_all2 onlyBadgesAdded pg (annotateRow url data viewer pr pg)"
proof -
  from annotateRow_cases [of url data viewer pr pg]
  consider "annotateRow url data viewer pr pg = pg"
    | prData badge where "createReviewBadge url prData viewer = Some badge"
        "annotateRow url data viewer pr pg = after (link pr) badge pg"
    by blast
  then show ?thesis
  proof cases
    case 1
    then show ?thesis by (simp add: list_all2_refl onlyBadgesAdded_refl)
  next
    case 2
    from 2(1) have "isStatusBadge (Element badge)" by (rule createReviewBadge_isStatusBadge)
    then show ?thesis by (simp only: 2(2) after_onlyBadgesAdded)
  qed
qed

lemma annotateRows_onlyBadgesAdded:
  "list_all2 onlyBadgesAdded pg (annotateRows url data viewer prs pg)"
proof (induction prs arbitrary: pg)
  case Nil
  show ?case by (simp add: list_all2_refl onlyBadgesAdded_refl)
next
  case (Cons pr prs)
  have "list_all2 onlyBadgesAdded pg (annotateRow url data viewer pr pg)"
    by (rule annotateRow_onlyBadgesAdded)
  moreover have "list_all2 onlyBadgesAdded (annotateRow url data viewer pr pg)
      (annotateRows url data viewer prs (annotateRow url data viewer pr pg))"
    by (rule Cons.IH)
  ultimately have "list_all2 onlyBadgesAdded pg
      (annotateRows url data viewer prs (annotateRow url data viewer pr pg))"
    by (rule list_all2_trans [rotated]) (rule onlyBadgesAdded_trans)
  then show ?case by simp
qed

subsection \<open>The routine\<close>

definition stateAfter :: "Env \<Rightarrow> Link list \<Rightarrow> World \<Rightarrow> World" where
  "stateAfter env links w = snd (addReviewStatus env links w)"

lemma page_stateAfter:
  "page (stateAfter env links w) =
     (if prConfigsOf env (page w) links = [] then page w
      else case v4 env (batchQuery (prConfigsOf env (page w) links)) of
             Inl err \<Rightarrow> page w
           | Inr data \<Rightarrow> annotateRows (chromeGetURL env) data (getLoggedInUser env)
                           (prConfigsOf env (page w) links) (page w))"
  by (simp add: stateAfter_def addReviewStatus_def Let_def split: sum.splits)

lemma stateAfter_tidy: "tidy (page w) \<Longrightarrow> tidy (page (stateAfter env links w))"
  by (simp add: page_stateAfter annotate_collected_tidy split: sum.splits)

text \<open>
  The second of two invocations gets, for the pull requests it asks about, the data the
  first one got.
\<close>

definition sameAnswers :: "Env \<Rightarrow> Link list \<Rightarrow> World \<Rightarrow> bool" where
  "sameAnswers env links w =
     (\<forall>d1 d2. v4 env (batchQuery (prConfigsOf env (page w) links)) = Inr d1
        \<and> v4 env (batchQuery (prConfigsOf env (page (stateAfter env links w)) links)) = Inr d2
        \<longrightarrow> (\<forall>pr \<in> set (prConfigsOf env (page (stateAfter env links w)) links).
               d2 (key pr) = d1 (key pr)))"

lemma stateAfter_again:
  assumes "sameAnswers env links w"
  shows "page (stateAfter env links (stateAfter env links w)) = page (stateAfter env links w)"
proof (cases "prConfigsOf env (page w) links = []")
  case True
  then have "page (stateAfter env links w) = page w" by (simp add: page_stateAfter)
  with True show ?thesis by (simp add: page_stateAfter)
next
  case False
  show ?thesis
  proof (cases "v4 env (batchQuery (prConfigsOf env (page w) links))")
    case (Inl err)
    with False have "page (stateAfter env links w) = page w" by (simp add: page_stateAfter)
    with False Inl show ?thesis by (simp add: page_stateAfter)
  next
    case (Inr d1)
    let ?pg1 = "page (stateAfter env links w)"
    from False Inr have pg1: "?pg1 = annotateRows (chromeGetURL env) d1 (getLoggedInUser env)
        (prConfigsOf env (page w) links) (page w)"
      by (simp add: page_stateAfter)
    show ?thesis
    proof (cases "v4 env (batchQuery (prConfigsOf env ?pg1 links))")
      case (Inl err)
      then show ?thesis by (simp add: page_stateAfter [of env links "stateAfter env links w"])
    next
      case d2: (Inr d2)
      with assms Inr have "\<forall>pr \<in> set (prConfigsOf env ?pg1 links). d2 (key pr) = d1 (key pr)"
        unfolding sameAnswers_def by blast
      from annotateRows_again [OF pg1 this]
      show ?thesis using d2 by (simp add: page_stateAfter [of env links "stateAfter env links w"])
    qed
  qed
qed

lemma badge_created_once:
  assumes "tidy pg" and "pr \<in> set (prConfigsOf env pg links)" and "effective url data viewer pr"
  shows "\<exists>row. closest (annotateRows url data viewer (prConfigsOf env pg links) pg) (link pr) = Some row
            \<and> badgeCount row = 1"
proof -
  let ?pg1 = "annotateRows url data viewer (prConfigsOf env pg links) pg"
  from assms(2) have "inRow pg (link pr)"
    by (auto simp: prConfigsOf_mem notYetProcessed_iff)
  from badged_annotateRows_self [OF assms(2,3) this]
  obtain row where row: "closest ?pg1 (link pr) = Some row" and "badgeCount row \<noteq> 0"
    by (auto simp: badged_def querySelector_None split: option.splits)
  moreover from assms(1) have "tidy ?pg1" by (rule annotate_collected_tidy)
  with row have "badgeCount row \<le> 1" by (auto simp: tidy_iff dest: closest_SomeD)
  ultimately show ?thesis by auto
qed

text \<open>The rows after one invocation.\<close>

lemma stateAfter_unanswered:
  assumes "prConfigsOf env (page w) links = []
      \<or> (\<exists>err. v4 env (batchQuery (prConfigsOf env (page w) links)) = Inl err)"
  shows "page (stateAfter env links w) = page w"
  using assms by (auto simp: page_stateAfter)

lemma stateAfter_row_untouched:
  assumes "closest (page w) k = Some row"
    and "v4 env (batchQuery (prConfigsOf env (page w) links)) = Inr data"
    and "\<forall>pr \<in> set (prConfigsOf env (page w) links).
           Anchor (link pr) \<in> set row \<longrightarrow> \<not> effective (chromeGetURL env) data (getLoggedInUser env) pr"
  shows "closest (page (stateAfter env links w)) k = Some row"
  using assms by (simp add: page_stateAfter annotateRows_row_untouched)

lemma stateAfter_row_badged:
  assumes c: "closest (page w) l = Some row" and one: "length (anchorsOf row) \<le> 1"
    and l: "l \<in> set links" and z: "badgeCount row = 0"
    and a: "v4 env (batchQuery (prConfigsOf env (page w) links)) = Inr data"
    and d: "prDataOf data (toPrConfig env l) = Some prData"
    and b: "createReviewBadge (chromeGetURL env) prData (getLoggedInUser env) = Some badge"
  shows "closest (page (stateAfter env links w)) l = Some (insertAfter l badge row)"
proof -
  let ?prs = "prConfigsOf env (page w) links"
  from c z have "notYetProcessed (page w) l"
    by (simp add: notYetProcessed_def querySelector_None)
  with l have mem: "toPrConfig env l \<in> set ?prs" by (auto simp: prConfigsOf_mem)
  then have ne: "?prs \<noteq> []" by auto
  have all: "\<forall>pr \<in> set ?prs. pr = toPrConfig env (link pr)"
    by (auto simp: prConfigsOf_mem)
  from annotateRows_row_badged [OF c z one all mem d b]
  show ?thesis using ne a by (simp add: page_stateAfter)
qed

lemma stateAfter_row_kept:
  assumes c: "closest (page w) k = Some row" and nz: "badgeCount row \<noteq> 0"
    and one: "length (anchorsOf row) \<le> 1"
  shows "closest (page (stateAfter env links w)) k = Some row"
proof -
  let ?prs = "prConfigsOf env (page w) links"
  from c have k: "Anchor k \<in> set row" by (auto dest: closest_SomeD)
  have none: "\<forall>pr \<in> set ?prs. Anchor (link pr) \<notin> set row"
  proof
    fix pr assume pr: "pr \<in> set ?prs"
    show "Anchor (link pr) \<notin> set row"
    proof
      assume "Anchor (link pr) \<in> set row"
      with one k have "link pr = k" using single_anchor [of row "link pr" k] by blast
      moreover from pr have "notYetProcessed (page w) (link pr)"
        by (auto simp: prConfigsOf_mem)
      ultimately show False
        using c nz by (simp add: notYetProcessed_def querySelector_None)
    qed
  qed
  then have "closest (annotateRows url data viewer ?prs (page w)) k = Some row" for url data viewer
    using c by (intro annotateRows_row_untouched) simp_all
  with c show ?thesis by (simp add: page_stateAfter split: sum.splits)
qed

lemma stateAfter_onlyBadgesAdded:
  "list_all2 onlyBadgesAdded (page w) (page (stateAfter env links w))"
  by (simp add: page_stateAfter annotateRows_onlyBadgesAdded list_all2_refl onlyBadgesAdded_refl
      split: sum.splits)

text \<open>Concrete pages, links and responses.\<close>

definition link1 :: Link where
  "link1 = \<lparr>ref = 1, pathname = ''/o/r/pull/1''\<rparr>"

definition link2 :: Link where
  "link2 = \<lparr>ref = 2, pathname = ''/o/r/pull/2''\<rparr>"

lemma link1_neq_link2: "link1 \<noteq> link2"
  by (simp add: link1_def link2_def)

definition env_with :: "(string \<Rightarrow> ApiError + (string \<rightharpoonup> Repository)) \<Rightarrow> Env" where
  "env_with api =
     \<lparr>escapeKey = (\<lambda>a b c. ''_'' @ templateText a @ ''_'' @ templateText b @ ''_'' @ templateText c),
      v4 = api,
      getLoggedInUser = Some ''me'',
      chromeGetURL = (\<lambda>p. p),
      numberText = templateText\<rparr>"

lemma key_link1: "key (toPrConfig (env_with api) link1) = ''_o_r_1''"
  by (simp add: toPrConfig_def env_with_def link1_def element_at_def templateText_def Let_def)

lemma key_link2: "key (toPrConfig (env_with api) link2) = ''_o_r_2''"
  by (simp add: toPrConfig_def env_with_def link2_def element_at_def templateText_def Let_def)

lemma env_with_simps [simp]:
  "v4 (env_with api) = api" "getLoggedInUser (env_with api) = Some ''me''"
  "chromeGetURL (env_with api) = (\<lambda>p. p)"
  by (simp_all add: env_with_def)

definition pr_draft :: PrData where
  "pr_draft = pr_ready\<lparr>isDraft := True\<rparr>"

lemma badge_pr_draft: "createReviewBadge url pr_draft (Some ''me'') = None"
  by (rule own_pr_exhausted)
     (simp_all add: pr_draft_def pr_ready_def isMyPr_def readyToMergeApplies_def
        feedbackPendingApplies_def)

lemma badge_pr_needed: "createReviewBadge url pr_needed (Some ''me'') = Some reviewNeededBadge"
  using wip_pr_needed
  by (simp add: createReviewBadge_def isReadyToMerge_def needsReview_def Let_def
      titleContainsWip_iff reviewNeededBadge_def pr_needed_def isMyPr_def reviewStateOf_def
      getApprovalCount_def)

lemma isStatusBadge_needed: "isStatusBadge (Element reviewNeededBadge)"
  using createReviewBadge_isStatusBadge [OF badge_pr_needed] .

definition fresh_page :: Page where
  "fresh_page = [[Anchor link1]]"

definition badged_page :: Page where
  "badged_page = [[Anchor link1, Element reviewNeededBadge]]"

lemma notYetProcessed_fresh: "notYetProcessed fresh_page link1"
  by (simp add: notYetProcessed_def closest_def querySelector_def fresh_page_def)

lemma tidy_fresh: "tidy fresh_page"
  by (simp add: tidy_def fresh_page_def badgeCount_def anchorsOf_def)

definition draft_answer :: "string \<rightharpoonup> Repository" where
  "draft_answer = [''_o_r_1'' \<mapsto> \<lparr>pullRequest = Some pr_draft\<rparr>]"

definition needed_answer :: "string \<rightharpoonup> Repository" where
  "needed_answer = [''_o_r_1'' \<mapsto> \<lparr>pullRequest = Some pr_needed\<rparr>]"

lemma annotate_fresh_draft:
  "annotateRow url draft_answer (Some ''me'') (toPrConfig (env_with api) link1) fresh_page
     = fresh_page"
  by (simp add: annotateRow_def key_link1 draft_answer_def badge_pr_draft
      nextElementSibling_def closest_def fresh_page_def)

lemma annotate_fresh_needed:
  "annotateRow url needed_answer (Some ''me'') (toPrConfig (env_with api) link1) fresh_page
     = badged_page"
  by (simp add: annotateRow_def key_link1 needed_answer_def badge_pr_needed
      nextElementSibling_def closest_def fresh_page_def badged_page_def)

lemma stateAfter_fresh_draft:
  "page w = fresh_page \<Longrightarrow>
     page (stateAfter (env_with (\<lambda>q. Inr draft_answer)) [link1] w) = fresh_page"
  by (simp add: page_stateAfter prConfigsOf_def notYetProcessed_fresh annotate_fresh_draft)

lemma stateAfter_fresh_needed:
  "page w = fresh_page \<Longrightarrow>
     page (stateAfter (env_with (\<lambda>q. Inr needed_answer)) [link1] w) = badged_page"
  by (simp add: page_stateAfter prConfigsOf_def notYetProcessed_fresh annotate_fresh_needed)

definition both_answer :: "string \<rightharpoonup> Repository" where
  "both_answer = [''_o_r_1'' \<mapsto> \<lparr>pullRequest = Some pr_needed\<rparr>,
                  ''_o_r_2'' \<mapsto> \<lparr>pullRequest = Some pr_needed\<rparr>]"

lemma shared_row_first:
  "annotateRow url both_answer (Some ''me'') (toPrConfig (env_with api) link1)
      [[Anchor link1, Anchor link2]]
     = [[Anchor link1, Element reviewNeededBadge, Anchor link2]]"
  using link1_neq_link2
  by (simp add: annotateRow_def key_link1 both_answer_def badge_pr_needed
      nextElementSibling_def closest_def)

lemma shared_row_second:
  "annotateRow url both_answer (Some ''me'') (toPrConfig (env_with api) link2)
      [[Anchor link1, Element reviewNeededBadge, Anchor link2]]
     = [[Anchor link1, Element reviewNeededBadge, Anchor link2, Element reviewNeededBadge]]"
  using link1_neq_link2
  by (simp add: annotateRow_def key_link2 both_answer_def badge_pr_needed
      nextElementSibling_def closest_def)

lemma shared_row_configs:
  "prConfigsOf env [[Anchor link1, Anchor link2]] [link1, link2]
     = [toPrConfig env link1, toPrConfig env link2]"
  by (simp add: prConfigsOf_def notYetProcessed_def closest_def querySelector_def)

text \<open>
  Claim C6, as stated, fails twice. "Exactly one badge per row" does not hold after two
  invocations on a page whose only row belongs to a draft of the viewer's own, for which
  there is no badge to show: the row has no badge after the second invocation. And "at
  most one badge per row" does not hold for a row without badge that holds two observed
  links, each of a pull request that needs a review: both links pass the filter of one
  batch, the next sibling of neither is a badge, and the row has two badges after one
  invocation.
\<close>

theorem one_badge_per_row_counterexample:
  "tidy (page \<lparr>page = fresh_page, requests = []\<rparr>)
   \<and> page (stateAfter (env_with (\<lambda>q. Inr draft_answer)) [link1]
        (stateAfter (env_with (\<lambda>q. Inr draft_answer)) [link1]
           \<lparr>page = fresh_page, requests = []\<rparr>)) = [[Anchor link1]]
   \<and> badgeCount [Anchor link1] = 0
   \<and> badgeCount [Anchor link1, Anchor link2] = 0
   \<and> page (stateAfter (env_with (\<lambda>q. Inr both_answer)) [link1, link2]
        \<lparr>page = [[Anchor link1, Anchor link2]], requests = []\<rparr>)
       = [[Anchor link1, Element reviewNeededBadge, Anchor link2, Element reviewNeededBadge]]
   \<and> badgeCount [Anchor link1, Element reviewNeededBadge, Anchor link2, Element reviewNeededBadge] = 2"
proof -
  have a: "tidy (page \<lparr>page = fresh_page, requests = []\<rparr>)" by (simp add: tidy_fresh)
  have b: "page (stateAfter (env_with (\<lambda>q. Inr draft_answer)) [link1]
        (stateAfter (env_with (\<lambda>q. Inr draft_answer)) [link1]
           \<lparr>page = fresh_page, requests = []\<rparr>)) = [[Anchor link1]]"
    by (simp add: stateAfter_fresh_draft) (simp add: fresh_page_def)
  have c: "badgeCount [Anchor link1] = 0" "badgeCount [Anchor link1, Anchor link2] = 0"
    by (simp_all add: badgeCount_def)
  have d: "page (stateAfter (env_with (\<lambda>q. Inr both_answer)) [link1, link2]
        \<lparr>page = [[Anchor link1, Anchor link2]], requests = []\<rparr>)
       = [[Anchor link1, Element reviewNeededBadge, Anchor link2, Element reviewNeededBadge]]"
    by (simp add: page_stateAfter shared_row_configs shared_row_first shared_row_second)
  have e: "badgeCount [Anchor link1, Element reviewNeededBadge, Anchor link2, Element reviewNeededBadge] = 2"
    by (simp add: badgeCount_def isStatusBadge_needed del: isStatusBadge.simps(2))
  from a b c d e show ?thesis by (simp only: simp_thms)
qed

text \<open>
  Claim C6, amended. The links of the batch are those whose row carries no badge yet;
  the loop leaves the page alone when the next sibling of the link is a badge already;
  on a page whose rows hold at most one badge and one pull-request link each, one
  invocation, two invocations and two overlapping batches leave at most one badge in
  every row; a second invocation that gets the same data changes nothing on the page; a
  row for which the loop had a badge to create carries exactly one badge. The loop
  leaves the page alone for a pull request with missing data or without a badge to show.
  After one invocation, a row is exactly as it was when no pull request of the batch
  with a badge to show has its link in it; a row without badge that holds one link, of
  the batch and with a badge to show, is the old row with that badge inserted directly
  after the link; a row that carried a badge and holds at most one link is exactly as it
  was; the whole page is as it was when no link passed the filter or the request
  failed; and in every case the rows are the old rows, in their order, with nothing but
  badges added, and with nothing added to a row that holds no link.
\<close>

theorem one_badge_per_row:
  "(\<forall>pr \<in> set (prConfigsOf env pg links). inRow pg (link pr) \<and> \<not> badged pg (link pr))
   \<and> (nextIsBadge pg (link pr) \<longrightarrow> annotateRow url data viewer pr pg = pg)
   \<and> (tidy (page w) \<longrightarrow> tidy (page (stateAfter env links w))
         \<and> tidy (page (stateAfter env links (stateAfter env links w))))
   \<and> (tidy pg \<longrightarrow> tidy (annotateRows url dataB viewer (prConfigsOf env pg linksB)
           (annotateRows url dataA viewer (prConfigsOf env pg linksA) pg)))
   \<and> (sameAnswers env links w \<longrightarrow>
         page (stateAfter env links (stateAfter env links w)) = page (stateAfter env links w))
   \<and> (tidy pg \<and> pr \<in> set (prConfigsOf env pg links) \<and> effective url data viewer pr \<longrightarrow>
         (\<exists>row. closest (annotateRows url data viewer (prConfigsOf env pg links) pg) (link pr) = Some row
            \<and> badgeCount row = 1))
   \<and> (\<not> effective url data viewer pr \<longrightarrow> annotateRow url data viewer pr pg = pg)
   \<and> (closest (page w) k = Some row
        \<and> v4 env (batchQuery (prConfigsOf env (page w) links)) = Inr answer
        \<and> (\<forall>pr \<in> set (prConfigsOf env (page w) links). Anchor (link pr) \<in> set row \<longrightarrow>
              \<not> effective (chromeGetURL env) answer (getLoggedInUser env) pr)
       \<longrightarrow> closest (page (stateAfter env links w)) k = Some row)
   \<and> (closest (page w) k = Some row \<and> length (anchorsOf row) \<le> 1 \<and> k \<in> set links
        \<and> badgeCount row = 0
        \<and> v4 env (batchQuery (prConfigsOf env (page w) links)) = Inr answer
        \<and> prDataOf answer (toPrConfig env k) = Some prData
        \<and> createReviewBadge (chromeGetURL env) prData (getLoggedInUser env) = Some badge
       \<longrightarrow> closest (page (stateAfter env links w)) k = Some (insertAfter k badge row))
   \<and> (closest (page w) k = Some row \<and> badgeCount row \<noteq> 0 \<and> length (anchorsOf row) \<le> 1
       \<longrightarrow> closest (page (stateAfter env links w)) k = Some row)
   \<and> (prConfigsOf env (page w) links = []
        \<or> (\<exists>err. v4 env (batchQuery (prConfigsOf env (page w) links)) = Inl err)
       \<longrightarrow> page (stateAfter env links w) = page w)
   \<and> list_all2 onlyBadgesAdded (page w) (page (stateAfter env links w))"
proof (intro conjI impI)
  show "\<forall>pr \<in> set (prConfigsOf env pg links). inRow pg (link pr) \<and> \<not> badged pg (link pr)"
    by (auto simp: prConfigsOf_mem notYetProcessed_iff)
next
  assume "nextIsBadge pg (link pr)"
  then show "annotateRow url data viewer pr pg = pg" by (rule annotateRow_guard)
next
  assume "tidy (page w)"
  then show "tidy (page (stateAfter env links w))" by (rule stateAfter_tidy)
  then show "tidy (page (stateAfter env links (stateAfter env links w)))" by (rule stateAfter_tidy)
next
  assume "tidy pg"
  then show "tidy (annotateRows url dataB viewer (prConfigsOf env pg linksB)
           (annotateRows url dataA viewer (prConfigsOf env pg linksA) pg))"
    by (rule annotate_overlapping_tidy)
next
  assume "sameAnswers env links w"
  then show "page (stateAfter env links (stateAfter env links w)) = page (stateAfter env links w)"
    by (rule stateAfter_again)
next
  assume a: "tidy pg \<and> pr \<in> set (prConfigsOf env pg links) \<and> effective url data viewer pr"
  show "\<exists>row. closest (annotateRows url data viewer (prConfigsOf env pg links) pg) (link pr) = Some row
            \<and> badgeCount row = 1"
    by (rule badge_created_once) (use a in simp_all)
next
  assume "\<not> effective url data viewer pr"
  then show "annotateRow url data viewer pr pg = pg" by (rule annotateRow_not_effective)
next
  assume a: "closest (page w) k = Some row
        \<and> v4 env (batchQuery (prConfigsOf env (page w) links)) = Inr answer
        \<and> (\<forall>pr \<in> set (prConfigsOf env (page w) links). Anchor (link pr) \<in> set row \<longrightarrow>
              \<not> effective (chromeGetURL env) answer (getLoggedInUser env) pr)"
  show "closest (page (stateAfter env links w)) k = Some row"
    by (rule stateAfter_row_untouched [where data = answer]) (use a in simp_all)
next
  assume a: "closest (page w) k = Some row \<and> length (anchorsOf row) \<le> 1 \<and> k \<in> set links
        \<and> badgeCount row = 0
        \<and> v4 env (batchQuery (prConfigsOf env (page w) links)) = Inr answer
        \<and> prDataOf answer (toPrConfig env k) = Some prData
        \<and> createReviewBadge (chromeGetURL env) prData (getLoggedInUser env) = Some badge"
  show "closest (page (stateAfter env links w)) k = Some (insertAfter k badge row)"
    by (rule stateAfter_row_badged [where data = answer and prData = prData])
       (use a in simp_all)
next
  assume a: "closest (page w) k = Some row \<and> badgeCount row \<noteq> 0 \<and> length (anchorsOf row) \<le> 1"
  show "closest (page (stateAfter env links w)) k = Some row"
    by (rule stateAfter_row_kept) (use a in simp_all)
next
  assume "prConfigsOf env (page w) links = []
        \<or> (\<exists>err. v4 env (batchQuery (prConfigsOf env (page w) links)) = Inl err)"
  then show "page (stateAfter env links w) = page w" by (rule stateAfter_unanswered)
next
  show "list_all2 onlyBadgesAdded (page w) (page (stateAfter env links w))"
    by (rule stateAfter_onlyBadgesAdded)
qed

text \<open>
  A page with one row without badge. For a pull request that needs a review the link
  passes the filter, one invocation inserts the badge after the link, the second leaves
  the page as it is, and so does a second batch that was collected together with the
  first. For a draft of the viewer's own the row stays as it is. A row with a badge
  stays as it is, and so does the page when the request fails.
\<close>

lemma nextIsBadge_badged_page: "nextIsBadge badged_page link1"
  by (simp add: nextIsBadge_def nextElementSibling_def closest_def badged_page_def
      isStatusBadge_needed del: isStatusBadge.simps(2))

lemma effective_needed:
  "effective (\<lambda>p. p) needed_answer (Some ''me'') (toPrConfig (env_with api) link1)"
  by (simp add: effective_def prDataOf_def key_link1 needed_answer_def badge_pr_needed)

lemma not_effective_draft:
  "\<not> effective (\<lambda>p. p) draft_answer (Some ''me'') (toPrConfig (env_with api) link1)"
  by (simp add: effective_def prDataOf_def key_link1 draft_answer_def badge_pr_draft)

lemma prDataOf_needed:
  "prDataOf needed_answer (toPrConfig (env_with api) link1) = Some pr_needed"
  by (simp add: prDataOf_def key_link1 needed_answer_def)

lemma closest_fresh: "closest fresh_page link1 = Some [Anchor link1]"
  by (simp add: closest_def fresh_page_def)

lemma closest_badged: "closest badged_page link1 = Some [Anchor link1, Element reviewNeededBadge]"
  by (simp add: closest_def badged_page_def)

lemma configs_fresh: "prConfigsOf env fresh_page [link1] = [toPrConfig env link1]"
  by (simp add: prConfigsOf_def notYetProcessed_fresh)

theorem one_badge_per_row_witness:
  "toPrConfig (env_with (\<lambda>q. Inr needed_answer)) link1
      \<in> set (prConfigsOf (env_with (\<lambda>q. Inr needed_answer)) fresh_page [link1])
   \<and> inRow fresh_page link1 \<and> \<not> badged fresh_page link1
   \<and> nextIsBadge badged_page link1
   \<and> annotateRow (\<lambda>p. p) needed_answer (Some ''me'')
        (toPrConfig (env_with (\<lambda>q. Inr needed_answer)) link1) badged_page = badged_page
   \<and> tidy (page \<lparr>page = fresh_page, requests = []\<rparr>)
   \<and> sameAnswers (env_with (\<lambda>q. Inr needed_answer)) [link1] \<lparr>page = fresh_page, requests = []\<rparr>
   \<and> page (stateAfter (env_with (\<lambda>q. Inr needed_answer)) [link1]
        \<lparr>page = fresh_page, requests = []\<rparr>) = [[Anchor link1, Element reviewNeededBadge]]
   \<and> tidy (page (stateAfter (env_with (\<lambda>q. Inr needed_answer)) [link1]
        \<lparr>page = fresh_page, requests = []\<rparr>))
   \<and> page (stateAfter (env_with (\<lambda>q. Inr needed_answer)) [link1]
        (stateAfter (env_with (\<lambda>q. Inr needed_answer)) [link1]
           \<lparr>page = fresh_page, requests = []\<rparr>)) = [[Anchor link1, Element reviewNeededBadge]]
   \<and> tidy (annotateRows (\<lambda>p. p) needed_answer (Some ''me'')
        (prConfigsOf (env_with (\<lambda>q. Inr needed_answer)) fresh_page [link1])
        (annotateRows (\<lambda>p. p) needed_answer (Some ''me'')
           (prConfigsOf (env_with (\<lambda>q. Inr needed_answer)) fresh_page [link1]) fresh_page))
   \<and> effective (\<lambda>p. p) needed_answer (Some ''me'')
        (toPrConfig (env_with (\<lambda>q. Inr needed_answer)) link1)
   \<and> (\<exists>row. closest (annotateRows (\<lambda>p. p) needed_answer (Some ''me'')
                 (prConfigsOf (env_with (\<lambda>q. Inr needed_answer)) fresh_page [link1]) fresh_page)
               link1 = Some row
          \<and> badgeCount row = 1)
   \<and> \<not> effective (\<lambda>p. p) draft_answer (Some ''me'')
        (toPrConfig (env_with (\<lambda>q. Inr draft_answer)) link1)
   \<and> annotateRow (\<lambda>p. p) draft_answer (Some ''me'')
        (toPrConfig (env_with (\<lambda>q. Inr draft_answer)) link1) fresh_page = fresh_page
   \<and> closest (page (stateAfter (env_with (\<lambda>q. Inr draft_answer)) [link1]
        \<lparr>page = fresh_page, requests = []\<rparr>)) link1 = Some [Anchor link1]
   \<and> closest (page (stateAfter (env_with (\<lambda>q. Inr needed_answer)) [link1]
        \<lparr>page = fresh_page, requests = []\<rparr>)) link1
       = Some [Anchor link1, Element reviewNeededBadge]
   \<and> closest (page (stateAfter (env_with (\<lambda>q. Inr needed_answer)) [link1]
        \<lparr>page = badged_page, requests = []\<rparr>)) link1
       = Some [Anchor link1, Element reviewNeededBadge]
   \<and> page (stateAfter (env_with (\<lambda>q. Inl (ApiError ''offline''))) [link1]
        \<lparr>page = fresh_page, requests = []\<rparr>) = fresh_page
   \<and> list_all2 onlyBadgesAdded (page \<lparr>page = fresh_page, requests = []\<rparr>)
        (page (stateAfter (env_with (\<lambda>q. Inr needed_answer)) [link1]
           \<lparr>page = fresh_page, requests = []\<rparr>))"
proof -
  let ?env = "env_with (\<lambda>q. Inr needed_answer)"
  let ?envD = "env_with (\<lambda>q. Inr draft_answer)"
  let ?envO = "env_with (\<lambda>q. Inl (ApiError ''offline''))"
  let ?w = "\<lparr>page = fresh_page, requests = []\<rparr>"
  let ?wb = "\<lparr>page = badged_page, requests = []\<rparr>"
  have c: "toPrConfig ?env link1 \<in> set (prConfigsOf ?env fresh_page [link1])"
    by (simp add: configs_fresh)
  have t: "tidy (page ?w)" "tidy fresh_page" by (simp_all add: tidy_fresh)
  have s: "sameAnswers ?env [link1] ?w" by (simp add: sameAnswers_def)
  have p: "page (stateAfter ?env [link1] ?w) = [[Anchor link1, Element reviewNeededBadge]]"
    by (simp add: stateAfter_fresh_needed badged_page_def)
  have e: "effective (\<lambda>p. p) needed_answer (Some ''me'') (toPrConfig ?env link1)"
    by (rule effective_needed)
  have ne: "\<not> effective (\<lambda>p. p) draft_answer (Some ''me'') (toPrConfig ?envD link1)"
    by (rule not_effective_draft)
  note fresh = one_badge_per_row [where env = ?env and pg = fresh_page and links = "[link1]"
      and pr = "toPrConfig ?env link1" and url = "\<lambda>p. p" and data = needed_answer
      and viewer = "Some ''me''" and w = ?w and dataA = needed_answer and dataB = needed_answer
      and linksA = "[link1]" and linksB = "[link1]" and k = link1 and row = "[Anchor link1]"
      and answer = needed_answer and prData = pr_needed and badge = reviewNeededBadge]
  note again = one_badge_per_row [where env = ?env and pg = badged_page and links = "[link1]"
      and pr = "toPrConfig ?env link1" and url = "\<lambda>p. p" and data = needed_answer
      and viewer = "Some ''me''" and w = ?wb and dataA = needed_answer and dataB = needed_answer
      and linksA = "[link1]" and linksB = "[link1]" and k = link1
      and row = "[Anchor link1, Element reviewNeededBadge]"
      and answer = needed_answer and prData = pr_needed and badge = reviewNeededBadge]
  note draft = one_badge_per_row [where env = ?envD and pg = fresh_page and links = "[link1]"
      and pr = "toPrConfig ?envD link1" and url = "\<lambda>p. p" and data = draft_answer
      and viewer = "Some ''me''" and w = ?w and dataA = draft_answer and dataB = draft_answer
      and linksA = "[link1]" and linksB = "[link1]" and k = link1 and row = "[Anchor link1]"
      and answer = draft_answer and prData = pr_draft and badge = reviewNeededBadge]
  note offline = one_badge_per_row [where env = ?envO and pg = fresh_page and links = "[link1]"
      and pr = "toPrConfig ?envO link1" and url = "\<lambda>p. p" and data = draft_answer
      and viewer = "Some ''me''" and w = ?w and dataA = draft_answer and dataB = draft_answer
      and linksA = "[link1]" and linksB = "[link1]" and k = link1 and row = "[Anchor link1]"
      and answer = draft_answer and prData = pr_draft and badge = reviewNeededBadge]
  have 1: "inRow fresh_page link1 \<and> \<not> badged fresh_page link1"
    using fresh [THEN conjunct1] c by (auto simp del: inRow_after)
  have 2: "annotateRow (\<lambda>p. p) needed_answer (Some ''me'') (toPrConfig ?env link1) badged_page
      = badged_page"
    by (rule again [THEN conjunct2, THEN conjunct1, THEN mp]) (simp add: nextIsBadge_badged_page)
  have 3: "tidy (page (stateAfter ?env [link1] ?w))
      \<and> tidy (page (stateAfter ?env [link1] (stateAfter ?env [link1] ?w)))"
    by (rule fresh [THEN conjunct2, THEN conjunct2, THEN conjunct1, THEN mp]) (rule t)
  have same: "page (stateAfter ?env [link1] (stateAfter ?env [link1] ?w))
      = page (stateAfter ?env [link1] ?w)"
    by (rule fresh [THEN conjunct2, THEN conjunct2, THEN conjunct2, THEN conjunct2, THEN conjunct1, THEN mp]) (rule s)
  have twice: "page (stateAfter ?env [link1] (stateAfter ?env [link1] ?w))
      = [[Anchor link1, Element reviewNeededBadge]]"
    by (simp only: same p)
  have over: "tidy (annotateRows (\<lambda>p. p) needed_answer (Some ''me'') (prConfigsOf ?env fresh_page [link1])
        (annotateRows (\<lambda>p. p) needed_answer (Some ''me'')
           (prConfigsOf ?env fresh_page [link1]) fresh_page))"
    by (rule fresh [THEN conjunct2, THEN conjunct2, THEN conjunct2, THEN conjunct1, THEN mp]) (rule t)
  have 4: "\<exists>row. closest (annotateRows (\<lambda>p. p) needed_answer (Some ''me'')
                 (prConfigsOf ?env fresh_page [link1]) fresh_page)
               (link (toPrConfig ?env link1)) = Some row
          \<and> badgeCount row = 1"
    by (rule fresh [THEN conjunct2, THEN conjunct2, THEN conjunct2, THEN conjunct2, THEN conjunct2, THEN conjunct1, THEN mp]) (simp only: t c e simp_thms)
  have 5: "annotateRow (\<lambda>p. p) draft_answer (Some ''me'') (toPrConfig ?envD link1) fresh_page
      = fresh_page"
    by (rule draft [THEN conjunct2, THEN conjunct2, THEN conjunct2, THEN conjunct2, THEN conjunct2, THEN conjunct2, THEN conjunct1, THEN mp]) (rule ne)
  have 6: "closest (page (stateAfter ?envD [link1] ?w)) link1 = Some [Anchor link1]"
    by (rule draft [THEN conjunct2, THEN conjunct2, THEN conjunct2, THEN conjunct2, THEN conjunct2, THEN conjunct2, THEN conjunct2, THEN conjunct1, THEN mp]) (simp add: closest_fresh configs_fresh ne)
  have "closest (page (stateAfter ?env [link1] ?w)) link1
        = Some (insertAfter link1 reviewNeededBadge [Anchor link1])"
    by (rule fresh [THEN conjunct2, THEN conjunct2, THEN conjunct2, THEN conjunct2, THEN conjunct2, THEN conjunct2, THEN conjunct2, THEN conjunct2, THEN conjunct1, THEN mp])
       (simp add: closest_fresh anchorsOf_def badgeCount_def prDataOf_needed badge_pr_needed)
  then have 7: "closest (page (stateAfter ?env [link1] ?w)) link1
      = Some [Anchor link1, Element reviewNeededBadge]"
    by simp
  have 8: "closest (page (stateAfter ?env [link1] ?wb)) link1
      = Some [Anchor link1, Element reviewNeededBadge]"
    by (rule again [THEN conjunct2, THEN conjunct2, THEN conjunct2, THEN conjunct2, THEN conjunct2, THEN conjunct2, THEN conjunct2, THEN conjunct2, THEN conjunct2, THEN conjunct1, THEN mp])
       (simp add: closest_badged badgeCount_def anchorsOf_def isStatusBadge_needed
          del: isStatusBadge.simps(2))
  have "page (stateAfter ?envO [link1] ?w) = page ?w"
    by (rule offline [THEN conjunct2, THEN conjunct2, THEN conjunct2, THEN conjunct2, THEN conjunct2, THEN conjunct2, THEN conjunct2, THEN conjunct2, THEN conjunct2, THEN conjunct2, THEN conjunct1, THEN mp]) simp
  then have 9: "page (stateAfter ?envO [link1] ?w) = fresh_page" by simp
  have 10: "list_all2 onlyBadgesAdded (page ?w) (page (stateAfter ?env [link1] ?w))"
    by (rule fresh [THEN conjunct2, THEN conjunct2, THEN conjunct2, THEN conjunct2, THEN conjunct2, THEN conjunct2, THEN conjunct2, THEN conjunct2, THEN conjunct2, THEN conjunct2, THEN conjunct2])
  from 4 have 4: "\<exists>row. closest (annotateRows (\<lambda>p. p) needed_answer (Some ''me'')
                 (prConfigsOf ?env fresh_page [link1]) fresh_page) link1 = Some row
          \<and> badgeCount row = 1"
    by (simp only: link_toPrConfig)
  from c 1 nextIsBadge_badged_page 2 t(1) s p 3 twice over e 4 ne 5 6 7 8 9 10
  show ?thesis by (simp only: simp_thms)
qed

subsection \<open>Missing data\<close>

definition missing :: "(string \<rightharpoonup> Repository) \<Rightarrow> PrConfig \<Rightarrow> bool" where
  "missing data pr =
     (data (key pr) = None \<or> (\<exists>repo. data (key pr) = Some repo \<and> pullRequest repo = None))"

lemma missing_prDataOf: "missing data pr \<longleftrightarrow> prDataOf data pr = None"
  by (cases "data (key pr)") (auto simp: missing_def prDataOf_def)

text \<open>
  Claim C7. A pull request whose key is absent from the response, or whose
  \<^verbatim>\<open>pullRequest\<close> is null, is skipped: the loop leaves the page as it is for
  this row, the rest of the batch is processed as if the row were not in it, and the
  routine resolves whenever the request itself was answered.
\<close>

theorem missing_data_skipped:
  "(missing data pr \<longrightarrow> annotateRow url data viewer pr pg = pg)
   \<and> (missing data pr \<longrightarrow>
        annotateRows url data viewer (earlier @ pr # later) pg
          = annotateRows url data viewer (earlier @ later) pg)
   \<and> (v4 env (batchQuery (prConfigsOf env (page w) links)) = Inr data \<longrightarrow>
        fst (addReviewStatus env links w) = Resolved)"
proof (intro conjI impI)
  assume "missing data pr"
  then show "annotateRow url data viewer pr pg = pg"
    by (simp add: missing_prDataOf annotateRow_missing)
next
  assume "missing data pr"
  then show "annotateRows url data viewer (earlier @ pr # later) pg
          = annotateRows url data viewer (earlier @ later) pg"
    by (simp add: annotateRows_append missing_prDataOf annotateRow_missing)
next
  assume "v4 env (batchQuery (prConfigsOf env (page w) links)) = Inr data"
  then show "fst (addReviewStatus env links w) = Resolved"
    by (simp add: addReviewStatus_def Let_def)
qed

text \<open>
  Two rows, the response has data for the second only: the first row is left alone, the
  second gets its badge, the promise resolves.
\<close>

definition two_rows :: Page where
  "two_rows = [[Anchor link1], [Anchor link2]]"

definition second_answer :: "string \<rightharpoonup> Repository" where
  "second_answer = [''_o_r_2'' \<mapsto> \<lparr>pullRequest = Some pr_needed\<rparr>]"

lemma missing_link1: "missing second_answer (toPrConfig (env_with api) link1)"
  by (simp add: missing_def key_link1 second_answer_def)

lemma annotate_two_rows:
  "annotateRow url second_answer (Some ''me'') (toPrConfig (env_with api) link2) two_rows
     = [[Anchor link1], [Anchor link2, Element reviewNeededBadge]]"
  using link1_neq_link2
  by (simp add: annotateRow_def key_link2 second_answer_def badge_pr_needed
      nextElementSibling_def closest_def two_rows_def)

lemma prConfigsOf_two_rows:
  "prConfigsOf env two_rows [link1, link2] = [toPrConfig env link1, toPrConfig env link2]"
  using link1_neq_link2
  by (simp add: prConfigsOf_def notYetProcessed_def closest_def querySelector_def two_rows_def)

theorem missing_data_skipped_witness:
  "missing second_answer (toPrConfig (env_with (\<lambda>q. Inr second_answer)) link1)
   \<and> annotateRow (\<lambda>p. p) second_answer (Some ''me'')
        (toPrConfig (env_with (\<lambda>q. Inr second_answer)) link1) two_rows = two_rows
   \<and> annotateRows (\<lambda>p. p) second_answer (Some ''me'')
        [toPrConfig (env_with (\<lambda>q. Inr second_answer)) link1,
         toPrConfig (env_with (\<lambda>q. Inr second_answer)) link2] two_rows
       = [[Anchor link1], [Anchor link2, Element reviewNeededBadge]]
   \<and> addReviewStatus (env_with (\<lambda>q. Inr second_answer)) [link1, link2]
        \<lparr>page = two_rows, requests = []\<rparr>
       = (Resolved,
          \<lparr>page = [[Anchor link1], [Anchor link2, Element reviewNeededBadge]],
           requests = [batchQuery [toPrConfig (env_with (\<lambda>q. Inr second_answer)) link1,
                                   toPrConfig (env_with (\<lambda>q. Inr second_answer)) link2]]\<rparr>)"
proof -
  let ?env = "env_with (\<lambda>q. Inr second_answer)"
  let ?w = "\<lparr>page = two_rows, requests = []\<rparr>"
  have m: "missing second_answer (toPrConfig ?env link1)" by (rule missing_link1)
  have a: "v4 ?env (batchQuery (prConfigsOf ?env (page ?w) [link1, link2])) = Inr second_answer"
    by simp
  from missing_data_skipped [of second_answer "toPrConfig ?env link1" "\<lambda>p. p" "Some ''me''"
      two_rows "[]" "[toPrConfig ?env link2]" ?env ?w "[link1, link2]"] m a
  have skip: "annotateRows (\<lambda>p. p) second_answer (Some ''me'')
        [toPrConfig ?env link1, toPrConfig ?env link2] two_rows
       = annotateRow (\<lambda>p. p) second_answer (Some ''me'') (toPrConfig ?env link2) two_rows"
    and ok: "fst (addReviewStatus ?env [link1, link2] ?w) = Resolved"
    and same: "annotateRow (\<lambda>p. p) second_answer (Some ''me'') (toPrConfig ?env link1) two_rows
       = two_rows"
    by simp_all
  have s: "snd (addReviewStatus ?env [link1, link2] ?w)
       = \<lparr>page = annotateRows (\<lambda>p. p) second_answer (Some ''me'')
                   [toPrConfig ?env link1, toPrConfig ?env link2] two_rows,
          requests = [batchQuery [toPrConfig ?env link1, toPrConfig ?env link2]]\<rparr>"
    by (simp add: addReviewStatus_def prConfigsOf_two_rows Let_def del: annotateRows.simps)
  show ?thesis
    using m ok s same
    by (simp only: skip annotate_two_rows prod_eq_iff fst_conv snd_conv simp_thms)
qed

subsection \<open>Nothing to do\<close>

text \<open>
  Claim C8. When every link handed to the routine lies in a row that carries a badge
  already (or outside every row), and in particular when no link is handed to it, the
  routine returns at once: the promise resolves, no query is sent and the page is the
  same. As soon as one link passes the filter, exactly one query is sent.
\<close>

theorem nothing_to_do:
  "((\<forall>l \<in> set links. badged (page w) l \<or> \<not> inRow (page w) l) \<longrightarrow>
       addReviewStatus env links w = (Resolved, w))
   \<and> addReviewStatus env [] w = (Resolved, w)
   \<and> ((\<exists>l \<in> set links. notYetProcessed (page w) l) \<longrightarrow>
       requests (stateAfter env links w)
         = requests w @ [batchQuery (prConfigsOf env (page w) links)])"
proof (intro conjI impI)
  assume "\<forall>l \<in> set links. badged (page w) l \<or> \<not> inRow (page w) l"
  then have "filter (notYetProcessed (page w)) links = []"
    by (auto simp: filter_empty_conv notYetProcessed_iff)
  then show "addReviewStatus env links w = (Resolved, w)"
    by (simp add: addReviewStatus_def prConfigsOf_def)
next
  show "addReviewStatus env [] w = (Resolved, w)"
    by (simp add: addReviewStatus_def prConfigsOf_def)
next
  assume "\<exists>l \<in> set links. notYetProcessed (page w) l"
  then have "prConfigsOf env (page w) links \<noteq> []"
    by (auto simp: prConfigsOf_def filter_empty_conv)
  then show "requests (stateAfter env links w)
         = requests w @ [batchQuery (prConfigsOf env (page w) links)]"
    by (simp add: stateAfter_def addReviewStatus_def Let_def split: sum.splits)
qed

text \<open>
  A row that carries a badge, and an API that would fail: nothing is sent and nothing
  changes. The same API and a row without badge: one query is sent.
\<close>

theorem nothing_to_do_witness:
  "badged (page \<lparr>page = badged_page, requests = []\<rparr>) link1
   \<and> addReviewStatus (env_with (\<lambda>q. Inl (ApiError ''offline''))) [link1]
        \<lparr>page = badged_page, requests = []\<rparr>
       = (Resolved, \<lparr>page = badged_page, requests = []\<rparr>)
   \<and> notYetProcessed (page \<lparr>page = fresh_page, requests = []\<rparr>) link1
   \<and> requests (stateAfter (env_with (\<lambda>q. Inl (ApiError ''offline''))) [link1]
        \<lparr>page = fresh_page, requests = []\<rparr>)
       = [batchQuery [toPrConfig (env_with (\<lambda>q. Inl (ApiError ''offline''))) link1]]"
proof -
  let ?env = "env_with (\<lambda>q. Inl (ApiError ''offline''))"
  have b: "badged (page \<lparr>page = badged_page, requests = []\<rparr>) link1"
    by (simp add: badged_def closest_def querySelector_def badged_page_def
        isStatusBadge_needed del: isStatusBadge.simps(2))
  have n: "notYetProcessed (page \<lparr>page = fresh_page, requests = []\<rparr>) link1"
    by (simp add: notYetProcessed_fresh)
  have c: "prConfigsOf ?env fresh_page [link1] = [toPrConfig ?env link1]"
    by (simp add: prConfigsOf_def notYetProcessed_fresh)
  from nothing_to_do [of "[link1]" "\<lparr>page = badged_page, requests = []\<rparr>" ?env]
    nothing_to_do [of "[link1]" "\<lparr>page = fresh_page, requests = []\<rparr>" ?env] b n c
  show ?thesis by simp
qed

end
